theory Spec2Isabelle
  imports Complex_Main "HOL-Library.Product_Lexorder"
begin

section \<open>Strings\<close>

text \<open>
  A Python \<^verbatim>\<open>str\<close> is modelled as a \<^typ>\<open>string\<close> whose characters are the code
  points below 256 (Latin-1).  On these code points \<^verbatim>\<open>str.lower()\<close> maps \<^verbatim>\<open>A-Z\<close>
  (65..90) and the accented capitals 192..222 (except the multiplication sign 215)
  to the code point 32 above, and leaves every other character alone.
\<close>

definition lower_char :: "char \<Rightarrow> char" where
  "lower_char c =
     (let n = (of_char c :: nat) in
      if (65 \<le> n \<and> n \<le> 90) \<or> (192 \<le> n \<and> n \<le> 222 \<and> n \<noteq> 215)
      then char_of (n + 32) else c)"

definition lower :: "string \<Rightarrow> string" where
  "lower s = map lower_char s"

section \<open>difflib.SequenceMatcher\<close>

text \<open>
  \<^verbatim>\<open>_similarity_ratio\<close> is \<^verbatim>\<open>SequenceMatcher(None, str1.lower(), str2.lower()).ratio()\<close>.
  This section follows \<^verbatim>\<open>difflib.py\<close> of the Python standard library, method by method:
  \<^verbatim>\<open>__chain_b\<close>, \<^verbatim>\<open>find_longest_match\<close>, \<^verbatim>\<open>get_matching_blocks\<close>, \<^verbatim>\<open>ratio\<close>.
  The matcher is built with \<^verbatim>\<open>isjunk=None\<close> and \<^verbatim>\<open>autojunk=True\<close>, so the set
  \<^verbatim>\<open>bjunk\<close> is empty and only the "popular" elements of a second sequence of 200 or more
  elements are purged from the index.
\<close>

subsection \<open>\<^verbatim>\<open>__chain_b\<close>: the index of the second sequence\<close>

text \<open>The dict \<^verbatim>\<open>b2j\<close> maps an element of \<^verbatim>\<open>b\<close> to the ascending list of its positions.\<close>

definition b2j_get :: "(char \<rightharpoonup> nat list) \<Rightarrow> char \<Rightarrow> nat list" where
  \<comment> \<open>\<^verbatim>\<open>b2j.get(elt, nothing)\<close> with \<^verbatim>\<open>nothing = []\<close>\<close>
  "b2j_get b2j elt = (case b2j elt of None \<Rightarrow> [] | Some indices \<Rightarrow> indices)"

fun chain_b_index :: "string \<Rightarrow> nat \<Rightarrow> (char \<rightharpoonup> nat list) \<Rightarrow> (char \<rightharpoonup> nat list)" where
  \<comment> \<open>\<^verbatim>\<open>for i, elt in enumerate(b): indices = b2j.setdefault(elt, []); indices.append(i)\<close>\<close>
  "chain_b_index [] i b2j = b2j"
| "chain_b_index (elt # rest) i b2j =
     chain_b_index rest (Suc i) (b2j(elt \<mapsto> b2j_get b2j elt @ [i]))"

definition chain_b :: "string \<Rightarrow> (char \<rightharpoonup> nat list)" where
  "chain_b b =
     (let b2j = chain_b_index b 0 Map.empty;
          n = length b
      in if n \<ge> 200
         then (let ntest = n div 100 + 1
               in (\<lambda>elt. case b2j elt of
                            None \<Rightarrow> None
                          | Some idxs \<Rightarrow> if length idxs > ntest then None else Some idxs))
         else b2j)"

definition isbjunk :: "char \<Rightarrow> bool" where
  \<comment> \<open>\<^verbatim>\<open>self.bjunk.__contains__\<close>; \<^verbatim>\<open>bjunk\<close> stays the empty set when \<^verbatim>\<open>isjunk\<close> is \<^verbatim>\<open>None\<close>\<close>
  "isbjunk elt = False"

subsection \<open>\<^verbatim>\<open>find_longest_match\<close>\<close>

definition j2lenget :: "(nat \<rightharpoonup> nat) \<Rightarrow> nat \<Rightarrow> nat" where
  \<comment> \<open>\<^verbatim>\<open>j2len.get(j-1, 0)\<close>: the key \<^verbatim>\<open>-1\<close> is never present\<close>
  "j2lenget j2len j =
     (case j of 0 \<Rightarrow> 0
      | Suc j' \<Rightarrow> (case j2len j' of None \<Rightarrow> 0 | Some k \<Rightarrow> k))"

text \<open>
  The inner loop over the positions \<^verbatim>\<open>j\<close> of \<^verbatim>\<open>a[i]\<close> in \<^verbatim>\<open>b\<close>, with its
  \<^verbatim>\<open>continue\<close> and \<^verbatim>\<open>break\<close>.  Python's \<^verbatim>\<open>i-k+1\<close> is written \<open>i + 1 - k\<close>
  (\<open>k \<le> i + 1\<close> always holds there, see \<open>find_longest_match_bounds\<close>).
\<close>

fun flm_inner ::
  "nat list \<Rightarrow> nat \<Rightarrow> nat \<Rightarrow> nat \<Rightarrow> (nat \<rightharpoonup> nat) \<Rightarrow>
   (nat \<rightharpoonup> nat) \<times> (nat \<times> nat \<times> nat) \<Rightarrow> (nat \<rightharpoonup> nat) \<times> (nat \<times> nat \<times> nat)" where
  "flm_inner [] i blo bhi j2len st = st"
| "flm_inner (j # js) i blo bhi j2len (newj2len, (besti, bestj, bestsize)) =
     (if j < blo then flm_inner js i blo bhi j2len (newj2len, (besti, bestj, bestsize))
      else if j \<ge> bhi then (newj2len, (besti, bestj, bestsize))
      else
        (let k = j2lenget j2len j + 1;
             newj2len' = newj2len(j \<mapsto> k)
         in if k > bestsize
            then flm_inner js i blo bhi j2len (newj2len', (i + 1 - k, j + 1 - k, k))
            else flm_inner js i blo bhi j2len (newj2len', (besti, bestj, bestsize))))"

fun flm_outer ::
  "string \<Rightarrow> (char \<rightharpoonup> nat list) \<Rightarrow> nat list \<Rightarrow> nat \<Rightarrow> nat \<Rightarrow>
   (nat \<rightharpoonup> nat) \<times> (nat \<times> nat \<times> nat) \<Rightarrow> (nat \<rightharpoonup> nat) \<times> (nat \<times> nat \<times> nat)" where
  \<comment> \<open>\<^verbatim>\<open>for i in range(alo, ahi): ...; j2len = newj2len\<close>\<close>
  "flm_outer a b2j [] blo bhi st = st"
| "flm_outer a b2j (i # is) blo bhi (j2len, best) =
     flm_outer a b2j is blo bhi
       (flm_inner (b2j_get b2j (a ! i)) i blo bhi j2len (Map.empty, best))"

text \<open>
  The four \<^verbatim>\<open>while\<close> loops that extend the best block: backwards and forwards over
  non-junk elements (\<open>junk = False\<close>), then over junk elements (\<open>junk = True\<close>).
\<close>

fun extend_back ::
  "bool \<Rightarrow> string \<Rightarrow> string \<Rightarrow> nat \<Rightarrow> nat \<Rightarrow> nat \<times> nat \<times> nat \<Rightarrow> nat \<times> nat \<times> nat" where
  "extend_back junk a b alo blo (Suc i, Suc j, bestsize) =
     (if Suc i > alo \<and> Suc j > blo \<and> isbjunk (b ! j) = junk \<and> a ! i = b ! j
      then extend_back junk a b alo blo (i, j, bestsize + 1)
      else (Suc i, Suc j, bestsize))"
| "extend_back junk a b alo blo best = best"

function extend_fwd ::
  "bool \<Rightarrow> string \<Rightarrow> string \<Rightarrow> nat \<Rightarrow> nat \<Rightarrow> nat \<times> nat \<times> nat \<Rightarrow> nat \<times> nat \<times> nat" where
  "extend_fwd junk a b ahi bhi (besti, bestj, bestsize) =
     (if besti + bestsize < ahi \<and> bestj + bestsize < bhi
         \<and> isbjunk (b ! (bestj + bestsize)) = junk
         \<and> a ! (besti + bestsize) = b ! (bestj + bestsize)
      then extend_fwd junk a b ahi bhi (besti, bestj, bestsize + 1)
      else (besti, bestj, bestsize))"
  by pat_completeness auto
termination
  by (relation "measure (\<lambda>(junk, a, b, ahi, bhi, besti, bestj, bestsize). ahi - (besti + bestsize))")
     auto

declare extend_fwd.simps [simp del]

definition find_longest_match ::
  "string \<Rightarrow> string \<Rightarrow> (char \<rightharpoonup> nat list) \<Rightarrow> nat \<Rightarrow> nat \<Rightarrow> nat \<Rightarrow> nat \<Rightarrow> nat \<times> nat \<times> nat" where
  "find_longest_match a b b2j alo ahi blo bhi =
     (let best = snd (flm_outer a b2j [alo..<ahi] blo bhi (Map.empty, (alo, blo, 0)));
          best = extend_back False a b alo blo best;
          best = extend_fwd False a b ahi bhi best;
          best = extend_back True a b alo blo best;
          best = extend_fwd True a b ahi bhi best
      in best)"

text \<open>
  The block returned for the window \<open>[alo, ahi) \<times> [blo, bhi)\<close> lies inside the window.
  This is what makes the work list of \<^verbatim>\<open>get_matching_blocks\<close> shrink.
\<close>


definition j2len_ok :: "nat \<Rightarrow> nat \<Rightarrow> nat \<Rightarrow> (nat \<rightharpoonup> nat) \<Rightarrow> bool" where
  "j2len_ok alo blo n m = (\<forall>j k. m j = Some k \<longrightarrow> k \<le> n - alo \<and> k \<le> j + 1 - blo)"

definition best_ok :: "nat \<Rightarrow> nat \<Rightarrow> nat \<Rightarrow> nat \<Rightarrow> nat \<times> nat \<times> nat \<Rightarrow> bool" where
  "best_ok alo ahi blo bhi best =
     (case best of (bi, bj, bs) \<Rightarrow>
        (bi = alo \<and> bj = blo \<and> bs = 0) \<or>
        (alo \<le> bi \<and> blo \<le> bj \<and> bi + bs \<le> ahi \<and> bj + bs \<le> bhi))"

lemma j2lenget_le:
  "j2len_ok alo blo n m \<Longrightarrow> j2lenget m j \<le> n - alo \<and> j2lenget m j \<le> j - blo"
  by (auto simp: j2len_ok_def j2lenget_def split: nat.splits option.splits)

lemma j2len_ok_empty: "j2len_ok alo blo n Map.empty"
  by (simp add: j2len_ok_def)

lemma flm_inner_ok:
  assumes "j2len_ok alo blo i j2len" "alo \<le> i" "i < ahi"
  shows "best_ok alo ahi blo bhi best \<Longrightarrow> j2len_ok alo blo (Suc i) newj2len \<Longrightarrow>
         best_ok alo ahi blo bhi (snd (flm_inner js i blo bhi j2len (newj2len, best))) \<and>
         j2len_ok alo blo (Suc i) (fst (flm_inner js i blo bhi j2len (newj2len, best)))"
proof (induction js arbitrary: newj2len best)
  case Nil
  then show ?case by simp
next
  case (Cons j js)
  obtain bi bj bs where best: "best = (bi, bj, bs)" by (cases best) auto
  show ?case
  proof (cases "j < blo \<or> bhi \<le> j")
    case True
    then show ?thesis using Cons best by auto
  next
    case False
    define k where "k = j2lenget j2len j + 1"
    from j2lenget_le[OF assms(1), of j] False assms(2)
    have kb: "k \<le> Suc i - alo" "k \<le> j + 1 - blo" "0 < k"
      unfolding k_def by auto
    have m: "j2len_ok alo blo (Suc i) (newj2len(j \<mapsto> k))"
      using Cons.prems(2) kb unfolding j2len_ok_def by auto
    have b: "best_ok alo ahi blo bhi (i + 1 - k, j + 1 - k, k)"
      using kb False assms(2,3) unfolding best_ok_def by auto
    have step: "flm_inner (j # js) i blo bhi j2len (newj2len, best) =
        (if k > bs then flm_inner js i blo bhi j2len (newj2len(j \<mapsto> k), (i + 1 - k, j + 1 - k, k))
         else flm_inner js i blo bhi j2len (newj2len(j \<mapsto> k), best))"
      using False by (simp add: Let_def k_def best)
    show ?thesis
      unfolding step using Cons.IH[OF b m] Cons.IH[OF Cons.prems(1) m]
      by (simp only: split: if_split) simp
  qed
qed

lemma flm_outer_ok:
  "j2len_ok alo blo (alo + n) j2len \<Longrightarrow> best_ok alo ahi blo bhi best \<Longrightarrow> alo + n + m \<le> ahi \<Longrightarrow>
   best_ok alo ahi blo bhi (snd (flm_outer a b2j [alo + n..<alo + n + m] blo bhi (j2len, best)))"
proof (induction m arbitrary: n j2len best)
  case 0
  then show ?case by simp
next
  case (Suc m)
  have up: "[alo + n..<alo + n + Suc m] = (alo + n) # [alo + Suc n..<alo + Suc n + m]"
    by (simp add: upt_conv_Cons)
  obtain nj nb where r: "flm_inner (b2j_get b2j (a ! (alo + n))) (alo + n) blo bhi j2len (Map.empty, best) = (nj, nb)"
    by (cases "flm_inner (b2j_get b2j (a ! (alo + n))) (alo + n) blo bhi j2len (Map.empty, best)") auto
  from flm_inner_ok[OF Suc.prems(1), of ahi bhi best Map.empty "b2j_get b2j (a ! (alo + n))"] Suc.prems r
  have "best_ok alo ahi blo bhi nb" "j2len_ok alo blo (alo + Suc n) nj"
    by (auto simp: j2len_ok_empty)
  from Suc.IH[OF this(2) this(1)] Suc.prems(3)
  have "best_ok alo ahi blo bhi (snd (flm_outer a b2j [alo + Suc n..<alo + Suc n + m] blo bhi (nj, nb)))"
    by simp
  then show ?case
    by (simp only: up flm_outer.simps r)
qed

lemma extend_back_ok:
  "best_ok alo ahi blo bhi best \<Longrightarrow> best_ok alo ahi blo bhi (extend_back junk a b alo blo best)"
  by (induction junk a b alo blo best rule: extend_back.induct) (auto simp: best_ok_def)

lemma extend_fwd_ok:
  "best_ok alo ahi blo bhi best \<Longrightarrow> best_ok alo ahi blo bhi (extend_fwd junk a b ahi bhi best)"
proof (induction junk a b ahi bhi best rule: extend_fwd.induct)
  case (1 junk a b ahi bhi besti bestj bestsize)
  show ?case
  proof (cases "besti + bestsize < ahi \<and> bestj + bestsize < bhi
         \<and> isbjunk (b ! (bestj + bestsize)) = junk
         \<and> a ! (besti + bestsize) = b ! (bestj + bestsize)")
    case True
    have "best_ok alo ahi blo bhi (besti, bestj, bestsize + 1)"
      using True "1.prems" by (auto simp: best_ok_def)
    from "1.IH"[OF True this] True show ?thesis
      by (subst extend_fwd.simps) simp
  next
    case False
    then show ?thesis using "1.prems"
      by (subst extend_fwd.simps) auto
  qed
qed

lemma find_longest_match_ok:
  "best_ok alo ahi blo bhi (find_longest_match a b b2j alo ahi blo bhi)"
proof (cases "alo \<le> ahi")
  case True
  have i: "best_ok alo ahi blo bhi (alo, blo, 0)" by (simp add: best_ok_def)
  have "best_ok alo ahi blo bhi (snd (flm_outer a b2j [alo + 0..<alo + 0 + (ahi - alo)] blo bhi (Map.empty, (alo, blo, 0))))"
    by (rule flm_outer_ok) (use True i in \<open>auto simp: j2len_ok_empty\<close>)
  then have "best_ok alo ahi blo bhi (snd (flm_outer a b2j [alo..<ahi] blo bhi (Map.empty, (alo, blo, 0))))"
    using True by simp
  then show ?thesis
    unfolding find_longest_match_def Let_def
    by (intro extend_fwd_ok extend_back_ok)
next
  case False
  then have "best_ok alo ahi blo bhi (snd (flm_outer a b2j [alo..<ahi] blo bhi (Map.empty, (alo, blo, 0))))"
    by (simp add: best_ok_def)
  then show ?thesis
    unfolding find_longest_match_def Let_def
    by (intro extend_fwd_ok extend_back_ok)
qed

lemma find_longest_match_bounds:
  "find_longest_match a b b2j alo ahi blo bhi = (i, j, k) \<Longrightarrow> k \<noteq> 0 \<Longrightarrow>
   alo \<le> i \<and> i + k \<le> ahi \<and> blo \<le> j \<and> j + k \<le> bhi"
  using find_longest_match_ok[of alo ahi blo bhi a b b2j] by (auto simp: best_ok_def)

subsection \<open>\<^verbatim>\<open>get_matching_blocks\<close> and \<^verbatim>\<open>ratio\<close>\<close>

text \<open>
  The \<^verbatim>\<open>while queue:\<close> loop.  \<^verbatim>\<open>queue.pop()\<close> takes the entry appended last, so the
  work list is kept with its top at the head: the right-hand window, appended last, is in
  front of the left-hand one.
\<close>

function matching_loop ::
  "string \<Rightarrow> string \<Rightarrow> (char \<rightharpoonup> nat list) \<Rightarrow> (nat \<times> nat \<times> nat \<times> nat) list \<Rightarrow>
   (nat \<times> nat \<times> nat) list \<Rightarrow> (nat \<times> nat \<times> nat) list" where
  "matching_loop a b b2j [] matching_blocks = matching_blocks"
| "matching_loop a b b2j ((alo, ahi, blo, bhi) # queue) matching_blocks =
     (let (i, j, k) = find_longest_match a b b2j alo ahi blo bhi
      in if k \<noteq> 0
         then matching_loop a b b2j
                ((if i + k < ahi \<and> j + k < bhi then [(i + k, ahi, j + k, bhi)] else []) @
                 (if alo < i \<and> blo < j then [(alo, i, blo, j)] else []) @ queue)
                (matching_blocks @ [(i, j, k)])
         else matching_loop a b b2j queue matching_blocks)"
  by pat_completeness auto
termination
proof (relation "measure (\<lambda>(a, b, b2j, queue, blocks).
          sum_list (map (\<lambda>(alo, ahi, blo, bhi). 2 * (ahi - alo) + 1) queue))", goal_cases)
  case 1
  then show ?case by simp
next
  case (2 a b b2j alo ahi blo bhi queue matching_blocks x xa y xb ya)
  from find_longest_match_bounds[of a b b2j alo ahi blo bhi xa xb ya] 2
  show ?case by auto
next
  case (3 a b b2j alo ahi blo bhi queue matching_blocks x xa y xb ya)
  then show ?case by auto
qed

declare matching_loop.simps [simp del]

text \<open>
  After the loop the blocks are sorted, adjacent blocks are merged (the \<^verbatim>\<open>for\<close> loop
  over \<^verbatim>\<open>matching_blocks\<close> with the running block \<^verbatim>\<open>(i1, j1, k1)\<close>), and the
  sentinel \<^verbatim>\<open>(la, lb, 0)\<close> is appended.
\<close>

fun collapse_adjacent ::
  "(nat \<times> nat \<times> nat) list \<Rightarrow> nat \<times> nat \<times> nat \<Rightarrow> (nat \<times> nat \<times> nat) list \<Rightarrow>
   (nat \<times> nat \<times> nat) \<times> (nat \<times> nat \<times> nat) list" where
  "collapse_adjacent [] cur non_adjacent = (cur, non_adjacent)"
| "collapse_adjacent ((i2, j2, k2) # rest) (i1, j1, k1) non_adjacent =
     (if i1 + k1 = i2 \<and> j1 + k1 = j2
      then collapse_adjacent rest (i1, j1, k1 + k2) non_adjacent
      else collapse_adjacent rest (i2, j2, k2)
             (if k1 \<noteq> 0 then non_adjacent @ [(i1, j1, k1)] else non_adjacent))"

definition get_matching_blocks :: "string \<Rightarrow> string \<Rightarrow> (nat \<times> nat \<times> nat) list" where
  "get_matching_blocks a b =
     (let la = length a; lb = length b;
          matching_blocks = sort (matching_loop a b (chain_b b) [(0, la, 0, lb)] []);
          ((i1, j1, k1), non_adjacent) = collapse_adjacent matching_blocks (0, 0, 0) [];
          non_adjacent = (if k1 \<noteq> 0 then non_adjacent @ [(i1, j1, k1)] else non_adjacent)
      in non_adjacent @ [(la, lb, 0)])"

text \<open>
  \<^verbatim>\<open>_calculate_ratio\<close> returns the float \<^verbatim>\<open>2.0 * matches / length\<close>.  The model keeps the
  exact quotient as a \<^typ>\<open>real\<close>.  The quotient of two integers below \<open>2^53\<close> is rounded
  to the nearest double, rounding is monotone, and the literals \<^verbatim>\<open>0.8\<close>, \<^verbatim>\<open>0.85\<close> and
  \<^verbatim>\<open>0.9\<close> are the doubles nearest to \<open>4/5\<close>, \<open>17/20\<close> and \<open>9/10\<close>.  Two different
  quotients with denominators below \<open>2^26\<close> are more than one rounding step apart, and so
  is such a quotient from a threshold it differs from; so for strings of fewer than \<open>2^25\<close>
  characters the comparisons of a ratio with the thresholds and with another ratio come out
  as on the exact quotients.
\<close>

definition calculate_ratio :: "nat \<Rightarrow> nat \<Rightarrow> real" where
  "calculate_ratio matches len = (if len \<noteq> 0 then 2 * real matches / real len else 1)"

definition ratio :: "string \<Rightarrow> string \<Rightarrow> real" where
  \<comment> \<open>\<^verbatim>\<open>matches = sum(triple[-1] for triple in self.get_matching_blocks())\<close>\<close>
  "ratio a b =
     calculate_ratio (sum_list (map (\<lambda>(i, j, k). k) (get_matching_blocks a b)))
       (length a + length b)"

definition similarity_ratio :: "string \<Rightarrow> string \<Rightarrow> real" where
  \<comment> \<open>\<^verbatim>\<open>_similarity_ratio\<close>, the same in \<^verbatim>\<open>PlexService\<close> and \<^verbatim>\<open>JellyfinService\<close>\<close>
  "similarity_ratio str1 str2 = ratio (lower str1) (lower str2)"

section \<open>Data shared by the two media-server services\<close>

text \<open>
  A provider call either raises inside its \<^verbatim>\<open>try\<close> block (transport error, HTTP error
  status, a body that is not the expected JSON) or yields the parsed list.
\<close>

datatype 'a response = Failed | Ok 'a

datatype py_error = KeyError

datatype match_type = Exact | Similar | NoMatch

text \<open>
  The dict returned by \<^verbatim>\<open>check_album_in_library\<close>; \<open>library_album_id\<close> is the entry
  \<^verbatim>\<open>plex_album_id\<close> or \<^verbatim>\<open>jellyfin_album_id\<close>, \<open>library_album_name\<close> the entry
  \<^verbatim>\<open>plex_album_name\<close> or \<^verbatim>\<open>jellyfin_album_name\<close> (only set when an album was matched).
\<close>

record reconciliation =
  in_library :: bool
  match_type :: match_type
  match_confidence :: real
  available_tracks :: "string list"
  missing_tracks :: "string list"
  library_album_id :: "string option"
  library_album_name :: "string option"

text \<open>
  A track as \<^verbatim>\<open>SpotifyService.get_album_tracks\<close> builds it: the key \<^verbatim>\<open>name\<close> is always
  there; the other keys are not read by the reconciliation.
\<close>

record spotify_track =
  name :: string

definition not_found :: "real \<Rightarrow> spotify_track list \<Rightarrow> reconciliation" where
  "not_found confidence spotify_tracks =
     \<lparr>in_library = False, match_type = NoMatch, match_confidence = confidence,
      available_tracks = [],
      missing_tracks = map name spotify_tracks,
      library_album_id = None, library_album_name = None\<rparr>"

text \<open>
  The loop that keeps the candidate with the greatest ratio (the first one on ties);
  it is written three times in the source: over the artists and over the albums of a Plex
  library and over the albums of Jellyfin.
\<close>

fun best_similarity ::
  "('a \<Rightarrow> string) \<Rightarrow> string \<Rightarrow> 'a list \<Rightarrow> 'a option \<times> real \<Rightarrow> 'a option \<times> real" where
  "best_similarity label target [] st = st"
| "best_similarity label target (x # xs) (best_match, best_ratio) =
     (let r = similarity_ratio (label x) target
      in if r > best_ratio
         then best_similarity label target xs (Some x, r)
         else best_similarity label target xs (best_match, best_ratio))"

text \<open>
  The comparison of the tracks.  \<open>library_track_names\<close> enumerates the Python set of
  lower-cased library titles; the inner \<^verbatim>\<open>for\<close> with its \<^verbatim>\<open>break\<close> is \<open>any_similar\<close>.
\<close>

fun any_similar :: "string \<Rightarrow> string list \<Rightarrow> bool" where
  "any_similar track_name [] = False"
| "any_similar track_name (library_track_name # rest) =
     (if similarity_ratio track_name library_track_name \<ge> 9 / 10 then True
      else any_similar track_name rest)"

fun compare_tracks ::
  "string list \<Rightarrow> spotify_track list \<Rightarrow> string list \<times> string list \<Rightarrow> string list \<times> string list" where
  "compare_tracks library_track_names [] (available, missing) = (available, missing)"
| "compare_tracks library_track_names (spotify_track # rest) (available, missing) =
     (let track_name = name spotify_track
      in if lower track_name \<in> set library_track_names
         then compare_tracks library_track_names rest (available @ [track_name], missing)
         else if any_similar track_name library_track_names
         then compare_tracks library_track_names rest (available @ [track_name], missing)
         else compare_tracks library_track_names rest (available, missing @ [track_name]))"

section \<open>PlexService\<close>

text \<open>
  A directory of \<^verbatim>\<open>/library/sections\<close> and an entry of a \<^verbatim>\<open>Metadata\<close> list (an artist,
  an album or a track).  The fields read with \<^verbatim>\<open>.get\<close> may be absent; every entry
  carries its \<^verbatim>\<open>ratingKey\<close>, so as a dict it is never empty and always truthy.
\<close>

record plex_section =
  section_type :: "string option"
  section_key :: "string option"
  section_title :: "string option"

record library =
  lib_key :: "string option"
  lib_title :: "string option"

record metadata =
  ratingKey :: string
  key :: "string option"
  title :: "string option"
  parentTitle :: "string option"

text \<open>
  The server as the service sees it: its settings and what each request answers.
  \<open>section_all k t\<close> is \<^verbatim>\<open>GET {base_url}/library/sections/{k}/all?type=t\<close>,
  \<open>children p\<close> is \<^verbatim>\<open>GET {base_url}{p}\<close>.
\<close>

record plex_server =
  base_url :: string
  token :: string
  sections :: "plex_section list response"
  section_all :: "string \<Rightarrow> nat \<Rightarrow> metadata list response"
  children :: "string \<Rightarrow> metadata list response"

definition fstr :: "string option \<Rightarrow> string" where
  \<comment> \<open>a value in an f-string: \<^verbatim>\<open>None\<close> prints as \<^verbatim>\<open>None\<close>\<close>
  "fstr v = (case v of None \<Rightarrow> ''None'' | Some s \<Rightarrow> s)"

definition title_of :: "metadata \<Rightarrow> string" where
  \<comment> \<open>\<^verbatim>\<open>.get("title", "")\<close>\<close>
  "title_of m = (case title m of None \<Rightarrow> [] | Some t \<Rightarrow> t)"

definition parentTitle_of :: "metadata \<Rightarrow> string" where
  \<comment> \<open>\<^verbatim>\<open>.get("parentTitle", "")\<close>\<close>
  "parentTitle_of m = (case parentTitle m of None \<Rightarrow> [] | Some t \<Rightarrow> t)"

definition unconfigured :: "plex_server \<Rightarrow> bool" where
  \<comment> \<open>\<^verbatim>\<open>not self.base_url or not self.token\<close>\<close>
  "unconfigured srv = (base_url srv = [] \<or> token srv = [])"

definition get_music_libraries :: "plex_server \<Rightarrow> library list" where
  "get_music_libraries srv =
     (if unconfigured srv then []
      else case sections srv of
             Failed \<Rightarrow> []
           | Ok directory \<Rightarrow>
               map (\<lambda>s. \<lparr>lib_key = section_key s, lib_title = section_title s\<rparr>)
                 (filter (\<lambda>s. section_type s = Some ''artist'') directory))"

definition search_artist_in_library ::
  "plex_server \<Rightarrow> string option \<Rightarrow> string \<Rightarrow> metadata option" where
  "search_artist_in_library srv library_key artist_name =
     (if unconfigured srv then None
      else case section_all srv (fstr library_key) 8 of
             Failed \<Rightarrow> None
           | Ok artists \<Rightarrow>
               (case find (\<lambda>artist. lower (title_of artist) = lower artist_name) artists of
                  Some artist \<Rightarrow> Some artist
                | None \<Rightarrow>
                    (let (best_match, best_ratio) =
                           best_similarity title_of artist_name artists (None, 0)
                     in if best_ratio \<ge> 85 / 100 then best_match else None)))"

definition get_artist_albums ::
  "plex_server \<Rightarrow> string option \<Rightarrow> string \<Rightarrow> metadata list" where
  "get_artist_albums srv library_key artist_name =
     (if unconfigured srv then []
      else case section_all srv (fstr library_key) 9 of
             Failed \<Rightarrow> []
           | Ok all_albums \<Rightarrow>
               filter (\<lambda>album.
                   (let album_artist = lower (parentTitle_of album)
                    in album_artist = lower artist_name
                       \<or> similarity_ratio album_artist artist_name \<ge> 85 / 100))
                 all_albums)"

definition get_album_tracks :: "plex_server \<Rightarrow> string option \<Rightarrow> metadata list" where
  "get_album_tracks srv album_key =
     (if unconfigured srv then []
      else case children srv (fstr album_key) of
             Failed \<Rightarrow> []
           | Ok tracks \<Rightarrow> tracks)"

subsection \<open>\<^verbatim>\<open>PlexService.check_album_in_library\<close>\<close>

text \<open>
  Several albums carry the wanted title: the loop that fetches the tracks of each and keeps
  the first album whose track count is nearest to Spotify's.  \<open>best_track_diff\<close> starts at
  \<^verbatim>\<open>float('inf')\<close>, here \<open>None\<close>.
\<close>

fun closest_track_count ::
  "plex_server \<Rightarrow> nat \<Rightarrow> metadata list \<Rightarrow> metadata option \<times> nat option \<Rightarrow>
   metadata option \<times> nat option" where
  "closest_track_count srv spotify_track_count [] st = st"
| "closest_track_count srv spotify_track_count (album # rest) (best_album, best_track_diff) =
     (let album_tracks = get_album_tracks srv (key album);
          album_track_count = length album_tracks;
          track_diff = nat \<bar>int album_track_count - int spotify_track_count\<bar>
      in if (case best_track_diff of None \<Rightarrow> True | Some d \<Rightarrow> track_diff < d)
         then closest_track_count srv spotify_track_count rest (Some album, Some track_diff)
         else closest_track_count srv spotify_track_count rest (best_album, best_track_diff))"

text \<open>
  The album matching of one library (the part of the loop body from "Find all exact
  matches" to the similarity threshold).  It yields \<open>matched_album\<close>, \<open>exact_matches\<close> and
  \<open>best_ratio\<close>; \<open>best_ratio\<close> is assigned only on the similarity path and read only when
  \<open>exact_matches\<close> is empty, that is on that path.
\<close>

definition match_album ::
  "plex_server \<Rightarrow> metadata list \<Rightarrow> string \<Rightarrow> nat \<Rightarrow> metadata option \<times> metadata list \<times> real" where
  "match_album srv albums album_name spotify_track_count =
     (let exact_matches = filter (\<lambda>album. lower (title_of album) = lower album_name) albums;
          matched_album =
            (case exact_matches of
               [] \<Rightarrow> None
             | [album] \<Rightarrow> Some album
             | _ \<Rightarrow> fst (closest_track_count srv spotify_track_count exact_matches (None, None)))
      in case matched_album of
           Some album \<Rightarrow> (Some album, exact_matches, 0)
         | None \<Rightarrow>
             (let similarity_threshold = 80 / 100;
                  (best_match, best_ratio) = best_similarity title_of album_name albums (None, 0)
              in (if best_ratio \<ge> similarity_threshold then best_match else None,
                  exact_matches, best_ratio)))"

text \<open>One pass of the loop over the libraries: \<open>None\<close> is \<^verbatim>\<open>continue\<close>, \<open>Some\<close> is \<^verbatim>\<open>return\<close>.\<close>

definition check_library ::
  "plex_server \<Rightarrow> string \<Rightarrow> string \<Rightarrow> spotify_track list \<Rightarrow> library \<Rightarrow> reconciliation option" where
  "check_library srv album_name artist_name spotify_tracks library =
     (case search_artist_in_library srv (lib_key library) artist_name of
        None \<Rightarrow> None
      | Some artist \<Rightarrow>
          (let albums = get_artist_albums srv (lib_key library) artist_name
           in if albums = [] then None
              else
                (case match_album srv albums album_name (length spotify_tracks) of
                   (None, exact_matches, best_ratio) \<Rightarrow> None
                 | (Some matched_album, exact_matches, best_ratio) \<Rightarrow>
                     (let plex_tracks = get_album_tracks srv (key matched_album);
                          plex_track_names = remdups (map (\<lambda>track. lower (title_of track)) plex_tracks);
                          (available, missing) =
                             compare_tracks plex_track_names spotify_tracks ([], []);
                          is_exact_match = (length exact_matches > 0);
                          confidence = (if is_exact_match then 1 else best_ratio)
                      in Some \<lparr>in_library = True,
                               match_type = (if is_exact_match then Exact else Similar),
                               match_confidence = confidence,
                               available_tracks = available,
                               missing_tracks = missing,
                               library_album_id = Some (ratingKey matched_album),
                               library_album_name = title matched_album\<rparr>))))"

fun check_libraries ::
  "plex_server \<Rightarrow> string \<Rightarrow> string \<Rightarrow> spotify_track list \<Rightarrow> library list \<Rightarrow> reconciliation" where
  "check_libraries srv album_name artist_name spotify_tracks [] = not_found 0 spotify_tracks"
| "check_libraries srv album_name artist_name spotify_tracks (library # rest) =
     (case check_library srv album_name artist_name spotify_tracks library of
        Some result \<Rightarrow> result
      | None \<Rightarrow> check_libraries srv album_name artist_name spotify_tracks rest)"

definition plex_check_album_in_library ::
  "plex_server \<Rightarrow> string \<Rightarrow> string \<Rightarrow> spotify_track list \<Rightarrow> reconciliation" where
  "plex_check_album_in_library srv album_name artist_name spotify_tracks =
     (let music_libraries = get_music_libraries srv
      in if music_libraries = [] then not_found 0 spotify_tracks
         else check_libraries srv album_name artist_name spotify_tracks music_libraries)"

section \<open>JellyfinService\<close>

text \<open>
  An item of a Jellyfin answer (a user, an artist, an album or a track).  The service
  reads \<^verbatim>\<open>item["Id"]\<close> and \<^verbatim>\<open>item["Name"]\<close> by subscript: a missing key raises
  \<^verbatim>\<open>KeyError\<close>.  \<open>users\<close> is \<^verbatim>\<open>GET /Users\<close>; \<open>artist_search u n\<close>, \<open>artist_albums u i\<close>
  and \<open>album_items u i\<close> are the three \<^verbatim>\<open>GET /Users/{u}/Items\<close> requests (artists named
  \<open>n\<close>, albums of the artist \<open>i\<close>, children of the album \<open>i\<close>).
\<close>

record jf_item =
  item_Id :: "string option"
  item_Name :: "string option"

record jellyfin_server =
  jf_base_url :: string
  api_key :: string
  users :: "jf_item list response"
  artist_search :: "string \<Rightarrow> string \<Rightarrow> jf_item list response"
  artist_albums :: "string \<Rightarrow> string \<Rightarrow> jf_item list response"
  album_items :: "string \<Rightarrow> string \<Rightarrow> jf_item list response"

definition jf_unconfigured :: "jellyfin_server \<Rightarrow> bool" where
  "jf_unconfigured srv = (jf_base_url srv = [] \<or> api_key srv = [])"

definition first_user_id :: "jellyfin_server \<Rightarrow> string option" where
  \<comment> \<open>the user id both methods fetch first; \<open>None\<close> when the method returns \<^verbatim>\<open>[]\<close> there
      (request failed, no user, or \<^verbatim>\<open>users[0]["Id"]\<close> raised inside the \<^verbatim>\<open>try\<close>)\<close>
  "first_user_id srv =
     (case users srv of
        Failed \<Rightarrow> None
      | Ok [] \<Rightarrow> None
      | Ok (user # _) \<Rightarrow> item_Id user)"

definition get_artist_items :: "jellyfin_server \<Rightarrow> string \<Rightarrow> jf_item list" where
  "get_artist_items srv artist_name =
     (if jf_unconfigured srv then []
      else case first_user_id srv of
             None \<Rightarrow> []
           | Some user_id \<Rightarrow>
               (case artist_search srv user_id artist_name of
                  Failed \<Rightarrow> []
                | Ok [] \<Rightarrow> []
                | Ok (artist # _) \<Rightarrow>
                    (case item_Id artist of
                       None \<Rightarrow> []
                     | Some artist_id \<Rightarrow>
                         (case artist_albums srv user_id artist_id of
                            Failed \<Rightarrow> []
                          | Ok items \<Rightarrow> items))))"

definition jf_get_album_tracks :: "jellyfin_server \<Rightarrow> string \<Rightarrow> jf_item list" where
  "jf_get_album_tracks srv album_id =
     (if jf_unconfigured srv then []
      else case first_user_id srv of
             None \<Rightarrow> []
           | Some user_id \<Rightarrow>
               (case album_items srv user_id album_id of
                  Failed \<Rightarrow> []
                | Ok items \<Rightarrow> items))"

definition has_Name :: "jf_item \<Rightarrow> bool" where
  "has_Name item = (item_Name item \<noteq> None)"

definition Name_of :: "jf_item \<Rightarrow> string" where
  \<comment> \<open>\<^verbatim>\<open>item["Name"]\<close>, read only after the key was checked (see below)\<close>
  "Name_of item = (case item_Name item of None \<Rightarrow> [] | Some n \<Rightarrow> n)"

text \<open>
  \<^verbatim>\<open>JellyfinService.check_album_in_library\<close>.  The first loop over the albums (it prints
  \<^verbatim>\<open>jf_album['Name']\<close>) raises \<^verbatim>\<open>KeyError\<close> if an album has no name, so the later loops
  read names that are there; \<^verbatim>\<open>matched_album["Id"]\<close> and the set comprehension over
  \<^verbatim>\<open>track["Name"]\<close> are the two other subscripts that can raise.  None of them is inside
  a \<^verbatim>\<open>try\<close>.
\<close>

definition jf_check_album_in_library ::
  "jellyfin_server \<Rightarrow> string \<Rightarrow> string \<Rightarrow> spotify_track list \<Rightarrow> py_error + reconciliation" where
  "jf_check_album_in_library srv album_name artist_name spotify_tracks =
     (let jellyfin_albums = get_artist_items srv artist_name
      in if jellyfin_albums = [] then Inr (not_found 0 spotify_tracks)
         else if \<not> list_all has_Name jellyfin_albums then Inl KeyError
         else
           (let exact_match = find (\<lambda>jf_album. lower (Name_of jf_album) = lower album_name) jellyfin_albums;
                similarity_threshold = 85 / 100;
                (best_match, best_ratio) =
                   (if exact_match = None
                    then best_similarity Name_of album_name jellyfin_albums (None, 0)
                    else (None, 0));
                matched_album =
                   (case exact_match of
                      Some album \<Rightarrow> Some album
                    | None \<Rightarrow> if best_ratio \<ge> similarity_threshold then best_match else None)
            in case matched_album of
                 None \<Rightarrow> Inr (not_found best_ratio spotify_tracks)
               | Some album \<Rightarrow>
                   (case item_Id album of
                      None \<Rightarrow> Inl KeyError
                    | Some jellyfin_album_id \<Rightarrow>
                        (let jf_tracks = jf_get_album_tracks srv jellyfin_album_id
                         in if \<not> list_all has_Name jf_tracks then Inl KeyError
                            else
                              (let jf_track_names = remdups (map (\<lambda>track. lower (Name_of track)) jf_tracks);
                                   (available, missing) =
                                      compare_tracks jf_track_names spotify_tracks ([], [])
                               in Inr \<lparr>in_library = True,
                                       match_type = (if exact_match \<noteq> None then Exact else Similar),
                                       match_confidence = (if exact_match \<noteq> None then 1 else best_ratio),
                                       available_tracks = available,
                                       missing_tracks = missing,
                                       library_album_id = Some jellyfin_album_id,
                                       library_album_name = Some (Name_of album)\<rparr>)))))"

section \<open>Example servers\<close>

text \<open>
  A Plex server with two music libraries and a film library.  Library \<open>1\<close> has Michael
  Jackson with the album "Thriller" (three tracks) and "Bad" twice (two and four tracks);
  library \<open>2\<close> has "Thriller" too, but the request for its tracks fails there.
\<close>

definition entry :: "string \<Rightarrow> string \<Rightarrow> string \<Rightarrow> metadata" where
  "entry rk t p =
     \<lparr>ratingKey = rk, key = Some (''/library/metadata/'' @ rk @ ''/children''),
      title = Some t, parentTitle = Some p\<rparr>"

definition plex_example :: plex_server where
  "plex_example =
     \<lparr>base_url = ''http://plex:32400'', token = ''secret'',
      sections = Ok [\<lparr>section_type = Some ''movie'', section_key = Some ''7'', section_title = Some ''Films''\<rparr>,
                     \<lparr>section_type = Some ''artist'', section_key = Some ''2'', section_title = Some ''Vinyl''\<rparr>,
                     \<lparr>section_type = Some ''artist'', section_key = Some ''1'', section_title = Some ''Music''\<rparr>],
      section_all = (\<lambda>k t.
         if t = 8 \<and> (k = ''1'' \<or> k = ''2'') then Ok [entry ''10'' ''Michael Jackson'' []]
         else if t = 9 \<and> k = ''1''
           then Ok [entry ''20'' ''Thriller'' ''Michael Jackson'',
                    entry ''21'' ''Bad'' ''Michael Jackson'',
                    entry ''22'' ''BAD'' ''michael jackson'',
                    entry ''23'' ''Nevermind'' ''Nirvana'']
         else if t = 9 \<and> k = ''2'' then Ok [entry ''40'' ''Thriller'' ''Michael Jackson'']
         else Failed),
      children = (\<lambda>p.
         if p = ''/library/metadata/20/children''
           then Ok [entry ''30'' ''Wanna Be Startin Something'' ''Thriller'',
                    entry ''31'' ''Billie Jean'' ''Thriller'',
                    entry ''32'' ''Beat It'' ''Thriller'']
         else if p = ''/library/metadata/21/children''
           then Ok [entry ''33'' ''Bad'' ''Bad'', entry ''34'' ''Smooth Criminal'' ''Bad'']
         else if p = ''/library/metadata/22/children''
           then Ok [entry ''35'' ''Bad'' ''Bad'', entry ''36'' ''Smooth Criminal'' ''Bad'',
                    entry ''37'' ''Dirty Diana'' ''Bad'', entry ''38'' ''Man in the Mirror'' ''Bad'']
         else Failed)\<rparr>"

definition thriller_tracks :: "spotify_track list" where
  "thriller_tracks =
     [\<lparr>name = ''Wanna Be Startin Somethin''\<rparr>, \<lparr>name = ''Billie Jean''\<rparr>, \<lparr>name = ''Thriller''\<rparr>]"

text \<open>A Jellyfin server with one user and the same artist.\<close>

definition jf_example :: jellyfin_server where
  "jf_example =
     \<lparr>jf_base_url = ''http://jellyfin:8096'', api_key = ''secret'',
      users = Ok [\<lparr>item_Id = Some ''u1'', item_Name = Some ''admin''\<rparr>],
      artist_search = (\<lambda>u n. if u = ''u1'' \<and> n = ''Michael Jackson''
                              then Ok [\<lparr>item_Id = Some ''a1'', item_Name = Some ''Michael Jackson''\<rparr>]
                              else Ok []),
      artist_albums = (\<lambda>u a. if u = ''u1'' \<and> a = ''a1''
                              then Ok [\<lparr>item_Id = Some ''b1'', item_Name = Some ''Bad''\<rparr>,
                                       \<lparr>item_Id = Some ''b2'', item_Name = Some ''THRILLER''\<rparr>]
                              else Failed),
      album_items = (\<lambda>u i. if u = ''u1'' \<and> i = ''b2''
                            then Ok [\<lparr>item_Id = Some ''t1'', item_Name = Some ''Billie Jean''\<rparr>,
                                     \<lparr>item_Id = Some ''t2'', item_Name = Some ''Beat It''\<rparr>]
                            else Failed)\<rparr>"

section \<open>Auxiliary facts\<close>


lemma lower_char_idem: "lower_char (lower_char c) = lower_char c"
proof -
  have lt: "(of_char c :: nat) < 256" by simp
  show ?thesis
    unfolding lower_char_def Let_def
    using lt by (auto simp del: nat_of_char_less_256)
qed

lemma lower_idem: "lower (lower s) = lower s"
  by (simp add: lower_def lower_char_idem)

lemma similarity_ratio_lower_right: "similarity_ratio a (lower b) = similarity_ratio a b"
  by (simp add: similarity_ratio_def lower_idem)

lemma similarity_ratio_lower_left: "similarity_ratio (lower a) b = similarity_ratio a b"
  by (simp add: similarity_ratio_def lower_idem)

lemma any_similar_iff:
  "any_similar track_name ns \<longleftrightarrow> (\<exists>p \<in> set ns. similarity_ratio track_name p \<ge> 9 / 10)"
  by (induction ns) auto

definition is_available :: "string list \<Rightarrow> string \<Rightarrow> bool" where
  "is_available ns track_name = (lower track_name \<in> set ns \<or> any_similar track_name ns)"

lemma compare_tracks_filter:
  "compare_tracks ns ts (av, mi) =
     (av @ filter (is_available ns) (map name ts),
      mi @ filter (\<lambda>n. \<not> is_available ns n) (map name ts))"
  by (induction ts arbitrary: av mi) (auto simp: is_available_def Let_def)

text \<open>
  A Python set is iterated in no particular order; the outcome of the comparison does not
  depend on the order in which the library track names are enumerated.
\<close>

lemma compare_tracks_enumeration:
  assumes "set ns = set ns'"
  shows "compare_tracks ns ts acc = compare_tracks ns' ts acc"
proof -
  have "is_available ns = is_available ns'"
    using assms by (simp add: fun_eq_iff is_available_def any_similar_iff)
  then show ?thesis
    by (cases acc) (simp add: compare_tracks_filter)
qed

text \<open>
  Both services compare the Spotify tracks with the tracks fetched for the matched album.
\<close>

lemma check_library_compare:
  assumes "check_library srv album_name artist_name ts library = Some r"
  shows "\<exists>album :: metadata. library_album_id r = Some (ratingKey album) \<and> library_album_name r = title album \<and>
     compare_tracks (remdups (map (\<lambda>track. lower (title_of track))
                                 (get_album_tracks srv (key album)))) ts ([], [])
       = (available_tracks r, missing_tracks r)"
proof -
  let ?albums = "get_artist_albums srv (lib_key library) artist_name"
  obtain m em br where ma: "match_album srv ?albums album_name (length ts) = (m, em, br)"
    by (cases "match_album srv ?albums album_name (length ts)") auto
  from assms ma obtain album where al: "m = Some album"
    unfolding check_library_def Let_def
    by (cases m) (auto split: option.splits if_splits)
  let ?c = "compare_tracks (remdups (map (\<lambda>track. lower (title_of track))
                                 (get_album_tracks srv (key album)))) ts ([], [])"
  from assms ma al have f: "library_album_id r = Some (ratingKey album)"
    "library_album_name r = title album" "available_tracks r = fst ?c" "missing_tracks r = snd ?c"
    unfolding check_library_def Let_def case_prod_beta
    by (auto split: option.splits if_splits)
  show ?thesis
    by (rule exI[where x = album]) (simp add: f)
qed

lemma jf_check_compare:
  assumes "jf_check_album_in_library srv album_name artist_name ts = Inr r" "in_library r"
  shows "\<exists>i. library_album_id r = Some i \<and>
     compare_tracks (remdups (map (\<lambda>track. lower (Name_of track))
                                 (jf_get_album_tracks srv i))) ts ([], [])
       = (available_tracks r, missing_tracks r)"
proof -
  from assms obtain i where i: "library_album_id r = Some i"
    unfolding jf_check_album_in_library_def Let_def case_prod_beta
    by (auto simp: not_found_def split: option.splits if_splits)
  let ?c = "compare_tracks (remdups (map (\<lambda>track. lower (Name_of track))
                                 (jf_get_album_tracks srv i))) ts ([], [])"
  from assms i have f: "available_tracks r = fst ?c" "missing_tracks r = snd ?c"
    unfolding jf_check_album_in_library_def Let_def case_prod_beta
    by (auto simp: not_found_def split: option.splits if_splits)
  show ?thesis
    by (rule exI[where x = i]) (simp add: i f)
qed

definition result_ok :: "spotify_track list \<Rightarrow> reconciliation \<Rightarrow> bool" where
  "result_ok ts r =
     (set (available_tracks r) \<union> set (missing_tracks r) = name ` set ts \<and>
      set (available_tracks r) \<inter> set (missing_tracks r) = {} \<and>
      (match_type r = NoMatch \<longrightarrow>
         \<not> in_library r \<and> available_tracks r = [] \<and> missing_tracks r = map name ts) \<and>
      (match_type r = Exact \<longrightarrow> match_confidence r = 1))"

lemma not_found_ok: "result_ok ts (not_found c ts)"
  by (auto simp: result_ok_def not_found_def)

lemma check_library_ok:
  "check_library srv album_name artist_name ts library = Some r \<Longrightarrow> result_ok ts r"
  unfolding check_library_def Let_def
  by (auto simp: result_ok_def compare_tracks_filter split: option.splits if_splits prod.splits)

lemma check_libraries_ok:
  "result_ok ts (check_libraries srv album_name artist_name ts libs)"
  by (induction libs) (auto simp: not_found_ok check_library_ok split: option.splits)

lemma plex_check_ok:
  "result_ok ts (plex_check_album_in_library srv album_name artist_name ts)"
  by (simp add: plex_check_album_in_library_def Let_def not_found_ok check_libraries_ok)

lemma jf_check_ok:
  "jf_check_album_in_library srv album_name artist_name ts = Inr r \<Longrightarrow> result_ok ts r"
  unfolding jf_check_album_in_library_def Let_def
  by (auto simp: result_ok_def not_found_def compare_tracks_filter split: option.splits if_splits prod.splits)

definition sim_of :: "('a \<Rightarrow> string) \<Rightarrow> string \<Rightarrow> 'a \<Rightarrow> real" where
  "sim_of label target x = similarity_ratio (label x) target"

lemma best_similarity_spec:
  "best_similarity label target xs (bm, br) = (rm, rr) \<Longrightarrow>
   (rm = bm \<and> rr = br \<and> (\<forall>j<length xs. sim_of label target (xs ! j) \<le> br)) \<or>
   (\<exists>i<length xs. rm = Some (xs ! i) \<and> rr = sim_of label target (xs ! i) \<and> br < rr \<and>
      (\<forall>j<length xs. sim_of label target (xs ! j) \<le> rr) \<and>
      (\<forall>j<i. sim_of label target (xs ! j) < rr))"
proof (induction xs arbitrary: bm br)
  case Nil
  then show ?case by simp
next
  case (Cons x xs)
  let ?s = "sim_of label target"
  show ?case
  proof (cases "?s x > br")
    case True
    with Cons.prems have run: "best_similarity label target xs (Some x, ?s x) = (rm, rr)"
      by (simp add: sim_of_def Let_def)
    from Cons.IH[OF run] show ?thesis
    proof (elim disjE exE conjE)
      assume a: "rm = Some x" "rr = ?s x" "\<forall>j<length xs. ?s (xs ! j) \<le> ?s x"
      have "\<forall>j<length (x # xs). ?s ((x # xs) ! j) \<le> rr"
        using a by (auto simp: nth_Cons split: nat.splits)
      with a True show ?thesis
        by (intro disjI2 exI[of _ 0]) auto
    next
      fix i assume a: "i < length xs" "rm = Some (xs ! i)" "rr = ?s (xs ! i)" "?s x < rr"
        "\<forall>j<length xs. ?s (xs ! j) \<le> rr" "\<forall>j<i. ?s (xs ! j) < rr"
      have 1: "\<forall>j<length (x # xs). ?s ((x # xs) ! j) \<le> rr"
        using a by (auto simp: nth_Cons split: nat.splits)
      have 2: "\<forall>j<Suc i. ?s ((x # xs) ! j) < rr"
        using a by (auto simp: nth_Cons split: nat.splits)
      from a True 1 2 show ?thesis
        by (intro disjI2 exI[of _ "Suc i"]) auto
    qed
  next
    case False
    with Cons.prems have run: "best_similarity label target xs (bm, br) = (rm, rr)"
      by (simp add: sim_of_def Let_def)
    from Cons.IH[OF run] show ?thesis
    proof (elim disjE exE conjE)
      assume a: "rm = bm" "rr = br" "\<forall>j<length xs. ?s (xs ! j) \<le> br"
      have "\<forall>j<length (x # xs). ?s ((x # xs) ! j) \<le> br"
        using a False by (auto simp: nth_Cons split: nat.splits)
      with a show ?thesis by auto
    next
      fix i assume a: "i < length xs" "rm = Some (xs ! i)" "rr = ?s (xs ! i)" "br < rr"
        "\<forall>j<length xs. ?s (xs ! j) \<le> rr" "\<forall>j<i. ?s (xs ! j) < rr"
      have 1: "\<forall>j<length (x # xs). ?s ((x # xs) ! j) \<le> rr"
        using a False by (auto simp: nth_Cons split: nat.splits)
      have 2: "\<forall>j<Suc i. ?s ((x # xs) ! j) < rr"
        using a False by (auto simp: nth_Cons split: nat.splits)
      from a 1 2 show ?thesis
        by (intro disjI2 exI[of _ "Suc i"]) auto
    qed
  qed
qed

lemma similarity_ratio_nonneg: "0 \<le> similarity_ratio a b"
  by (simp add: similarity_ratio_def ratio_def calculate_ratio_def)

lemma best_similarity_from_zero:
  assumes "best_similarity label target xs (None, 0) = (bm, br)"
  shows "(\<forall>x\<in>set xs. similarity_ratio (label x) target \<le> br) \<and>
         (br = 0 \<and> bm = None \<or>
          0 < br \<and> (\<exists>i<length xs. bm = Some (xs ! i) \<and>
             similarity_ratio (label (xs ! i)) target = br \<and>
             (\<forall>j<i. similarity_ratio (label (xs ! j)) target < br)))"
  using best_similarity_spec[OF assms]
  by (auto simp: sim_of_def in_set_conv_nth)

definition track_diff :: "plex_server \<Rightarrow> nat \<Rightarrow> metadata \<Rightarrow> nat" where
  "track_diff srv spotify_track_count album =
     nat \<bar>int (length (get_album_tracks srv (key album))) - int spotify_track_count\<bar>"

definition closer :: "nat \<Rightarrow> nat option \<Rightarrow> bool" where
  "closer d best = (case best of None \<Rightarrow> True | Some d' \<Rightarrow> d < d')"

lemma closest_track_count_spec:
  "closest_track_count srv n xs (ba, bd) = (ra, rd) \<Longrightarrow>
   (ra = ba \<and> rd = bd \<and> (\<forall>j<length xs. \<not> closer (track_diff srv n (xs ! j)) bd)) \<or>
   (\<exists>i<length xs. ra = Some (xs ! i) \<and> rd = Some (track_diff srv n (xs ! i)) \<and>
      closer (track_diff srv n (xs ! i)) bd \<and>
      (\<forall>j<length xs. track_diff srv n (xs ! i) \<le> track_diff srv n (xs ! j)) \<and>
      (\<forall>j<i. track_diff srv n (xs ! i) < track_diff srv n (xs ! j)))"
proof (induction xs arbitrary: ba bd)
  case Nil
  then show ?case by simp
next
  case (Cons x xs)
  let ?d = "track_diff srv n"
  show ?case
  proof (cases "closer (?d x) bd")
    case True
    with Cons.prems have run: "closest_track_count srv n xs (Some x, Some (?d x)) = (ra, rd)"
      by (simp add: track_diff_def closer_def Let_def)
    from Cons.IH[OF run] show ?thesis
    proof (elim disjE exE conjE)
      assume a: "ra = Some x" "rd = Some (?d x)" "\<forall>j<length xs. \<not> closer (?d (xs ! j)) (Some (?d x))"
      have "\<forall>j<length (x # xs). ?d x \<le> ?d ((x # xs) ! j)"
        using a by (auto simp: nth_Cons closer_def not_less split: nat.splits)
      with a True show ?thesis
        by (intro disjI2 exI[of _ 0]) auto
    next
      fix i assume a: "i < length xs" "ra = Some (xs ! i)" "rd = Some (?d (xs ! i))"
        "closer (?d (xs ! i)) (Some (?d x))"
        "\<forall>j<length xs. ?d (xs ! i) \<le> ?d (xs ! j)" "\<forall>j<i. ?d (xs ! i) < ?d (xs ! j)"
      have lt: "?d (xs ! i) < ?d x" using a(4) by (simp add: closer_def)
      have 0: "closer (?d (xs ! i)) bd"
        using True lt by (auto simp: closer_def split: option.splits)
      have 1: "\<forall>j<length (x # xs). ?d (xs ! i) \<le> ?d ((x # xs) ! j)"
        using a lt by (auto simp: nth_Cons split: nat.splits)
      have 2: "\<forall>j<Suc i. ?d (xs ! i) < ?d ((x # xs) ! j)"
        using a lt by (auto simp: nth_Cons split: nat.splits)
      from a 0 1 2 show ?thesis
        by (intro disjI2 exI[of _ "Suc i"]) auto
    qed
  next
    case False
    with Cons.prems have run: "closest_track_count srv n xs (ba, bd) = (ra, rd)"
      by (simp add: track_diff_def closer_def Let_def)
    from False obtain d where bd: "bd = Some d" "d \<le> ?d x"
      by (auto simp: closer_def split: option.splits)
    from Cons.IH[OF run] show ?thesis
    proof (elim disjE exE conjE)
      assume a: "ra = ba" "rd = bd" "\<forall>j<length xs. \<not> closer (?d (xs ! j)) bd"
      have "\<forall>j<length (x # xs). \<not> closer (?d ((x # xs) ! j)) bd"
        using a False by (auto simp: nth_Cons split: nat.splits)
      with a show ?thesis by auto
    next
      fix i assume a: "i < length xs" "ra = Some (xs ! i)" "rd = Some (?d (xs ! i))"
        "closer (?d (xs ! i)) bd"
        "\<forall>j<length xs. ?d (xs ! i) \<le> ?d (xs ! j)" "\<forall>j<i. ?d (xs ! i) < ?d (xs ! j)"
      have lt: "?d (xs ! i) < ?d x" using a(4) bd by (simp add: closer_def)
      have 1: "\<forall>j<length (x # xs). ?d (xs ! i) \<le> ?d ((x # xs) ! j)"
        using a lt by (auto simp: nth_Cons split: nat.splits)
      have 2: "\<forall>j<Suc i. ?d (xs ! i) < ?d ((x # xs) ! j)"
        using a lt by (auto simp: nth_Cons split: nat.splits)
      from a 1 2 show ?thesis
        by (intro disjI2 exI[of _ "Suc i"]) auto
    qed
  qed
qed

lemma closest_track_count_first_min:
  assumes "xs \<noteq> []"
  shows "\<exists>i<length xs. fst (closest_track_count srv n xs (None, None)) = Some (xs ! i) \<and>
      (\<forall>j<length xs. track_diff srv n (xs ! i) \<le> track_diff srv n (xs ! j)) \<and>
      (\<forall>j<i. track_diff srv n (xs ! i) < track_diff srv n (xs ! j))"
proof -
  obtain ra rd where r: "closest_track_count srv n xs (None, None) = (ra, rd)"
    by (cases "closest_track_count srv n xs (None, None)") auto
  from closest_track_count_spec[OF r] assms show ?thesis
    by (auto simp: r closer_def)
qed

lemma count_list_filter_eq:
  "count_list (filter P xs) x = (if P x then count_list xs x else 0)"
  by (induction xs) auto

definition result_lists :: "spotify_track list \<Rightarrow> reconciliation \<Rightarrow> bool" where
  "result_lists ts r =
     (\<exists>ns. available_tracks r = filter (is_available ns) (map name ts) \<and>
           missing_tracks r = filter (\<lambda>n. \<not> is_available ns n) (map name ts))"

lemma not_found_lists: "result_lists ts (not_found c ts)"
  unfolding result_lists_def not_found_def
  by (rule exI[of _ "[]"]) (simp add: is_available_def)

lemma compare_tracks_lists:
  "compare_tracks ns ts ([], []) = (av, mi) \<Longrightarrow> available_tracks r = av \<Longrightarrow>
   missing_tracks r = mi \<Longrightarrow> result_lists ts r"
  unfolding result_lists_def by (rule exI[of _ ns]) (simp add: compare_tracks_filter)

lemma check_library_lists:
  "check_library srv album_name artist_name ts library = Some r \<Longrightarrow> result_lists ts r"
  unfolding check_library_def Let_def
  by (auto split: option.splits if_splits prod.splits intro: compare_tracks_lists)

lemma check_libraries_lists:
  "result_lists ts (check_libraries srv album_name artist_name ts libs)"
  by (induction libs) (auto simp: not_found_lists check_library_lists split: option.splits)

lemma plex_check_lists:
  "result_lists ts (plex_check_album_in_library srv album_name artist_name ts)"
  by (simp add: plex_check_album_in_library_def Let_def not_found_lists check_libraries_lists)

lemma jf_check_lists:
  "jf_check_album_in_library srv album_name artist_name ts = Inr r \<Longrightarrow> result_lists ts r"
  unfolding jf_check_album_in_library_def Let_def
  by (auto simp: not_found_lists split: option.splits if_splits prod.splits
           intro: compare_tracks_lists)

lemma result_lists_counts:
  assumes "result_lists ts r"
  shows "count_list (available_tracks r) x + count_list (missing_tracks r) x
           = count_list (map name ts) x"
    and "count_list (available_tracks r) x = 0 \<or> count_list (missing_tracks r) x = 0"
    and "length (available_tracks r) + length (missing_tracks r) = length ts"
  using assms sum_length_filter_compl[of _ "map name ts"]
  by (auto simp: result_lists_def count_list_filter_eq)

lemma find_filter_Cons: "filter P xs = a # as \<Longrightarrow> find P xs = Some a"
  by (induction xs) (auto split: if_splits)

lemma find_filter_Nil: "filter P xs = [] \<Longrightarrow> find P xs = None"
  by (induction xs) (auto split: if_splits)

lemma match_album_single:
  "filter (\<lambda>album. lower (title_of album) = lower album_name) albums = [album] \<Longrightarrow>
   match_album srv albums album_name n = (Some album, [album], 0)"
  by (simp add: match_album_def)

lemma match_album_many:
  assumes "length (filter (\<lambda>album. lower (title_of album) = lower album_name) albums) > 1"
  shows "match_album srv albums album_name n =
          (fst (closest_track_count srv n
                 (filter (\<lambda>album. lower (title_of album) = lower album_name) albums) (None, None)),
           filter (\<lambda>album. lower (title_of album) = lower album_name) albums, 0)"
proof -
  let ?e = "filter (\<lambda>album. lower (title_of album) = lower album_name) albums"
  from assms obtain a b rest where e: "?e = a # b # rest"
    by (cases ?e; cases "tl ?e") auto
  from closest_track_count_first_min[of ?e srv n] e
  obtain m where m: "fst (closest_track_count srv n ?e (None, None)) = Some m" by auto
  show ?thesis
    unfolding match_album_def Let_def using m e by (simp del: closest_track_count.simps)
qed

lemma match_album_no_exact:
  assumes "filter (\<lambda>a. lower (title_of a) = lower album_name) albums = []"
      and "best_similarity title_of album_name albums (None, 0) = (bm, br)"
  shows "match_album srv albums album_name n = (if 80 / 100 \<le> br then bm else None, [], br)"
  using assms by (simp add: match_album_def Let_def)

lemma check_library_matched:
  assumes "search_artist_in_library srv (lib_key library) artist_name \<noteq> None"
      and "get_artist_albums srv (lib_key library) artist_name \<noteq> []"
      and "match_album srv (get_artist_albums srv (lib_key library) artist_name) album_name
             (length spotify_tracks) = (Some album, exact_matches, best_ratio)"
  shows "\<exists>r. check_library srv album_name artist_name spotify_tracks library = Some r \<and>
             in_library r \<and>
             match_type r = (if exact_matches \<noteq> [] then Exact else Similar) \<and>
             match_confidence r = (if exact_matches \<noteq> [] then 1 else best_ratio) \<and>
             library_album_id r = Some (ratingKey album) \<and>
             library_album_name r = title album"
  using assms unfolding check_library_def Let_def
  by (auto split: option.splits prod.splits)

lemma check_library_unmatched:
  assumes "match_album srv (get_artist_albums srv (lib_key library) artist_name) album_name
             (length spotify_tracks) = (None, exact_matches, best_ratio)"
  shows "check_library srv album_name artist_name spotify_tracks library = None"
  using assms unfolding check_library_def Let_def
  by (auto split: option.splits)

lemma check_library_in_library:
  "check_library srv album_name artist_name ts library = Some r \<Longrightarrow> in_library r"
  unfolding check_library_def Let_def
  by (auto split: option.splits if_splits prod.splits)

lemma check_libraries_not_in_library:
  "\<not> in_library (check_libraries srv album_name artist_name ts libs) \<Longrightarrow>
   check_libraries srv album_name artist_name ts libs = not_found 0 ts"
  by (induction libs) (auto split: option.splits dest: check_library_in_library)

lemma plex_not_in_library:
  "\<not> in_library (plex_check_album_in_library srv album_name artist_name ts) \<Longrightarrow>
   plex_check_album_in_library srv album_name artist_name ts = not_found 0 ts"
  unfolding plex_check_album_in_library_def Let_def
  by (auto dest: check_libraries_not_in_library)

lemma result_ok_NoMatch: "result_ok ts r \<Longrightarrow> match_type r = NoMatch \<Longrightarrow> \<not> in_library r"
  by (simp add: result_ok_def)

lemma compare_tracks_no_library_tracks:
  "compare_tracks [] ts ([], []) = ([], map name ts)"
  by (simp add: compare_tracks_filter is_available_def)

section \<open>Facts about the sequence matcher\<close>

subsection \<open>The matched blocks fit into both strings\<close>

text \<open>
  Each window of the work list contributes at most the smaller of its two sides, because the
  block found lies inside the window and the two windows pushed lie on its two sides.
  Sorting and merging adjacent blocks do not change the sum of the sizes.
\<close>

definition block_size :: "nat \<times> nat \<times> nat \<Rightarrow> nat" where
  "block_size t = (case t of (i, j, k) \<Rightarrow> k)"

definition window_size :: "nat \<times> nat \<times> nat \<times> nat \<Rightarrow> nat" where
  "window_size w = (case w of (alo, ahi, blo, bhi) \<Rightarrow> min (ahi - alo) (bhi - blo))"

lemma matching_loop_sum:
  "sum_list (map block_size (matching_loop a b b2j queue blocks))
     \<le> sum_list (map block_size blocks) + sum_list (map window_size queue)"
proof (induction a b b2j queue blocks rule: matching_loop.induct)
  case (1 a b b2j matching_blocks)
  then show ?case by (simp add: matching_loop.simps)
next
  case (2 a b b2j alo ahi blo bhi queue matching_blocks)
  obtain i j k where f: "find_longest_match a b b2j alo ahi blo bhi = (i, j, k)"
    by (cases "find_longest_match a b b2j alo ahi blo bhi") auto
  show ?case
  proof (cases "k = 0")
    case True
    from 2(2)[OF f[symmetric] refl refl] True f show ?thesis
      by (simp add: matching_loop.simps)
  next
    case False
    from find_longest_match_bounds[OF f False]
    have b: "alo \<le> i" "i + k \<le> ahi" "blo \<le> j" "j + k \<le> bhi" by auto
    let ?q = "(if i + k < ahi \<and> j + k < bhi then [(i + k, ahi, j + k, bhi)] else []) @
              (if alo < i \<and> blo < j then [(alo, i, blo, j)] else []) @ queue"
    have w: "k + sum_list (map window_size ?q) \<le> window_size (alo, ahi, blo, bhi) + sum_list (map window_size queue)"
      using b by (auto simp: window_size_def)
    have l: "matching_loop a b b2j ((alo, ahi, blo, bhi) # queue) matching_blocks
              = matching_loop a b b2j ?q (matching_blocks @ [(i, j, k)])"
      using f False by (simp add: matching_loop.simps)
    have e: "sum_list (map block_size (matching_blocks @ [(i, j, k)]))
              = sum_list (map block_size matching_blocks) + k"
      by (simp add: block_size_def)
    from 2(1)[OF f[symmetric] refl refl False]
    have "sum_list (map block_size (matching_loop a b b2j ?q (matching_blocks @ [(i, j, k)])))
           \<le> sum_list (map block_size (matching_blocks @ [(i, j, k)])) + sum_list (map window_size ?q)" .
    moreover have "sum_list (map window_size ((alo, ahi, blo, bhi) # queue))
              = window_size (alo, ahi, blo, bhi) + sum_list (map window_size queue)"
      by simp
    ultimately show ?thesis using w e unfolding l by linarith
  qed
qed

lemma sum_list_insort: "sum_list (map f (insort x xs)) = f x + sum_list (map f xs)"
  for f :: "'a::linorder \<Rightarrow> nat"
  by (induction xs) auto

lemma sum_list_sort: "sum_list (map f (sort xs)) = sum_list (map f xs)"
  for f :: "'a::linorder \<Rightarrow> nat"
  by (induction xs) (auto simp: sum_list_insort)

lemma collapse_adjacent_sum:
  "collapse_adjacent xs cur na = (cur', na') \<Longrightarrow>
   sum_list (map block_size na') + block_size cur'
     = sum_list (map block_size na) + block_size cur + sum_list (map block_size xs)"
proof (induction xs cur na rule: collapse_adjacent.induct)
  case (1 cur non_adjacent)
  then show ?case by simp
next
  case (2 i2 j2 k2 rest i1 j1 k1 non_adjacent)
  then show ?case
    by (auto simp: block_size_def split: if_splits)
qed

lemma get_matching_blocks_sum:
  "sum_list (map block_size (get_matching_blocks a b))
     = sum_list (map block_size (matching_loop a b (chain_b b) [(0, length a, 0, length b)] []))"
proof -
  let ?m = "sort (matching_loop a b (chain_b b) [(0, length a, 0, length b)] [])"
  obtain i1 j1 k1 na where c: "collapse_adjacent ?m (0, 0, 0) [] = ((i1, j1, k1), na)"
    by (cases "collapse_adjacent ?m (0, 0, 0) []") auto
  from collapse_adjacent_sum[OF c]
  have "sum_list (map block_size na) + k1 = sum_list (map block_size ?m)"
    by (simp add: block_size_def)
  then show ?thesis
    unfolding get_matching_blocks_def Let_def c
    by (simp add: block_size_def sum_list_sort)
qed

lemma matches_le:
  "sum_list (map block_size (get_matching_blocks a b)) \<le> min (length a) (length b)"
  using matching_loop_sum[of a b "chain_b b" "[(0, length a, 0, length b)]" "[]"]
  by (simp add: get_matching_blocks_sum window_size_def)

lemma ratio_eq: "ratio a b =
    calculate_ratio (sum_list (map block_size (get_matching_blocks a b))) (length a + length b)"
  by (simp add: ratio_def block_size_def[abs_def])

lemma ratio_range: "0 \<le> ratio a b \<and> ratio a b \<le> 1"
proof -
  let ?m = "sum_list (map block_size (get_matching_blocks a b))"
  from matches_le[of a b] have "2 * ?m \<le> length a + length b" by simp
  then have "2 * real ?m \<le> real (length a + length b)"
    by (metis of_nat_le_iff of_nat_mult of_nat_numeral)
  then show ?thesis
    unfolding ratio_eq calculate_ratio_def by (auto simp: divide_le_eq)
qed

subsection \<open>A string against itself\<close>

text \<open>
  \<open>indices_from b i c\<close> lists the positions of \<open>c\<close> in \<open>b\<close>, counted from \<open>i\<close>: what
  \<^verbatim>\<open>__chain_b\<close> stores for \<open>c\<close> unless \<open>c\<close> is purged as popular.  For \<open>a = b = x\<close> the
  first loop of \<^verbatim>\<open>find_longest_match\<close> keeps its best block on the diagonal: \<open>run p x m\<close> is
  the length of the run of unpurged characters that ends before position \<open>m\<close>, the entry of
  \<open>j2len\<close> on the diagonal is that run, every other entry is at most the runs at its row and
  at its column, and \<open>bestsize\<close> is at least every run seen so far.  The two loops over
  non-junk elements then extend the diagonal block to the whole string.
\<close>

fun indices_from :: "string \<Rightarrow> nat \<Rightarrow> char \<Rightarrow> nat list" where
  "indices_from [] i c = []"
| "indices_from (elt # rest) i c = (if elt = c then [i] else []) @ indices_from rest (Suc i) c"

lemma b2j_get_upd: "b2j_get (m(e \<mapsto> l)) c = (if c = e then l else b2j_get m c)"
  by (simp add: b2j_get_def)

lemma b2j_get_chain_b_index:
  "b2j_get (chain_b_index b i m) c = b2j_get m c @ indices_from b i c"
  by (induction b arbitrary: i m) (auto simp: b2j_get_upd)

lemma b2j_get_chain_b:
  "b2j_get (chain_b b) c = [] \<or> b2j_get (chain_b b) c = indices_from b 0 c"
proof -
  have e: "b2j_get (chain_b_index b 0 Map.empty) c = indices_from b 0 c"
    by (simp add: b2j_get_chain_b_index) (simp add: b2j_get_def)
  show ?thesis
    using e unfolding chain_b_def Let_def
    by (auto simp: b2j_get_def split: option.splits)
qed

lemma indices_from_set:
  "j \<in> set (indices_from b i c) \<longleftrightarrow> i \<le> j \<and> j < i + length b \<and> b ! (j - i) = c"
proof (induction b arbitrary: i j)
  case Nil
  then show ?case by simp
next
  case (Cons e rest)
  show ?case
  proof (cases "j = i")
    case True
    then show ?thesis by (simp add: Cons.IH)
  next
    case False
    have "(e # rest) ! (j - i) = rest ! (j - Suc i)" if "i \<le> j"
    proof -
      from that False have "j - i = Suc (j - Suc i)" by arith
      then show ?thesis by simp
    qed
    with False show ?thesis by (auto simp: Cons.IH)
  qed
qed

lemma indices_from_split:
  "k < length b \<Longrightarrow> b ! k = c \<Longrightarrow>
   \<exists>js1 js2. indices_from b i c = js1 @ (i + k) # js2 \<and>
             (\<forall>j\<in>set js1. j < i + k) \<and> (\<forall>j\<in>set js2. i + k < j)"
proof (induction b arbitrary: i k)
  case Nil
  then show ?case by simp
next
  case (Cons e rest)
  show ?case
  proof (cases k)
    case 0
    have 1: "indices_from (e # rest) i c = [] @ (i + k) # indices_from rest (Suc i) c"
      using 0 Cons.prems by simp
    have 3: "\<forall>j\<in>set (indices_from rest (Suc i) c). i + k < j"
      using 0 by (simp add: indices_from_set)
    show ?thesis
      by (rule exI[of _ "[]"], rule exI[of _ "indices_from rest (Suc i) c"]) (use 1 3 in simp)
  next
    case (Suc k')
    with Cons.prems have p: "k' < length rest" "rest ! k' = c" by simp_all
    from Cons.IH[OF p, of "Suc i"] show ?thesis
    proof (elim exE conjE)
      fix js1 js2
      assume r: "indices_from rest (Suc i) c = js1 @ (Suc i + k') # js2"
         "\<forall>j\<in>set js1. j < Suc i + k'" "\<forall>j\<in>set js2. Suc i + k' < j"
      have 1: "indices_from (e # rest) i c = ((if e = c then [i] else []) @ js1) @ (i + k) # js2"
        using r(1) Suc by simp
      have 2: "\<forall>j\<in>set ((if e = c then [i] else []) @ js1). j < i + k"
        using r(2) Suc by auto
      have 3: "\<forall>j\<in>set js2. i + k < j"
        using r(3) Suc by simp
      show ?thesis
        by (rule exI[of _ "(if e = c then [i] else []) @ js1"], rule exI[of _ js2])
           (use 1 2 3 in blast)
    qed
  qed
qed

lemma flm_inner_fst:
  "\<forall>j\<in>set js. blo \<le> j \<and> j < bhi \<Longrightarrow>
   fst (flm_inner js i blo bhi j2len (nm, best)) =
     (\<lambda>j. if j \<in> set js then Some (j2lenget j2len j + 1) else nm j)"
proof (induction js arbitrary: nm best)
  case Nil
  then show ?case by simp
next
  case (Cons j js)
  obtain bi bj bs where best: "best = (bi, bj, bs)" by (cases best) auto
  from Cons.prems have r: "\<not> j < blo" "\<not> bhi \<le> j" "\<forall>j\<in>set js. blo \<le> j \<and> j < bhi" by auto
  show ?case
    unfolding best using r(1,2) Cons.IH[OF r(3)]
    by (auto simp: Let_def fun_eq_iff)
qed

lemma flm_inner_noupdate:
  "\<forall>j\<in>set js. blo \<le> j \<and> j < bhi \<and> j2lenget j2len j + 1 \<le> bs \<Longrightarrow>
   snd (flm_inner js i blo bhi j2len (nm, (bi, bj, bs))) = (bi, bj, bs)"
proof (induction js arbitrary: nm)
  case Nil
  then show ?case by simp
next
  case (Cons j js)
  from Cons.prems have r: "\<not> j < blo" "\<not> bhi \<le> j" "\<not> bs < j2lenget j2len j + 1"
    "\<forall>j\<in>set js. blo \<le> j \<and> j < bhi \<and> j2lenget j2len j + 1 \<le> bs" by auto
  show ?case
    using r(1,2,3) Cons.IH[OF r(4)]
    by (simp add: Let_def)
qed

lemma flm_inner_append:
  "\<forall>j\<in>set xs. j < bhi \<Longrightarrow>
   flm_inner (xs @ ys) i blo bhi j2len st = flm_inner ys i blo bhi j2len (flm_inner xs i blo bhi j2len st)"
proof (induction xs arbitrary: st)
  case Nil
  then show ?case by simp
next
  case (Cons j xs)
  obtain nm bi bj bs where st: "st = (nm, bi, bj, bs)" by (cases st) auto
  from Cons.prems have r: "\<not> bhi \<le> j" "\<forall>j\<in>set xs. j < bhi" by auto
  show ?case
    unfolding st using r(1) Cons.IH[OF r(2)]
    by (simp add: Let_def)
qed

fun run :: "(char \<Rightarrow> bool) \<Rightarrow> string \<Rightarrow> nat \<Rightarrow> nat" where
  "run p x 0 = 0"
| "run p x (Suc m) = (if p (x ! m) then Suc (run p x m) else 0)"

declare run.simps(2) [simp del]

definition diag_inv ::
  "(char \<Rightarrow> bool) \<Rightarrow> string \<Rightarrow> nat \<Rightarrow> (nat \<rightharpoonup> nat) \<times> (nat \<times> nat \<times> nat) \<Rightarrow> bool" where
  "diag_inv p x m st =
     (case st of (j2len, (bi, bj, bs)) \<Rightarrow>
        bi = bj \<and> (\<forall>m'\<le>m. run p x m' \<le> bs) \<and>
        (\<forall>j. j2lenget j2len j \<le> run p x j \<and> j2lenget j2len j \<le> run p x m) \<and>
        j2lenget j2len m = run p x m)"

lemma j2lenget_fun:
  "j2lenget (\<lambda>j. if j \<in> S then Some (f j) else None) j =
     (case j of 0 \<Rightarrow> 0 | Suc j' \<Rightarrow> if j' \<in> S then f j' else 0)"
  by (simp add: j2lenget_def split: nat.splits)

lemma diag_row:
  assumes inv: "diag_inv p x m (j2len, best)"
      and m: "m < length x"
      and b2j: "\<forall>c. b2j_get b2j c = [] \<or> b2j_get b2j c = indices_from x 0 c"
      and p: "p = (\<lambda>c. b2j_get b2j c \<noteq> [])"
  shows "diag_inv p x (Suc m)
           (flm_inner (b2j_get b2j (x ! m)) m 0 (length x) j2len (Map.empty, best))"
proof -
  obtain bi bj bs where best: "best = (bi, bj, bs)" by (cases best) auto
  from inv best have d: "bi = bj" and c: "\<forall>m'\<le>m. run p x m' \<le> bs"
    and a: "\<forall>j. j2lenget j2len j \<le> run p x j \<and> j2lenget j2len j \<le> run p x m"
    and bb: "j2lenget j2len m = run p x m"
    by (auto simp: diag_inv_def)
  let ?n = "length x"
  show ?thesis
  proof (cases "p (x ! m)")
    case False
    then have e: "b2j_get b2j (x ! m) = []" by (simp add: p)
    have r0: "run p x (Suc m) = 0" using False by (simp add: run.simps(2))
    have c': "\<forall>m'\<le>Suc m. run p x m' \<le> bs"
      using c r0 by (simp add: le_Suc_eq)
    have z: "\<And>j. j2lenget Map.empty j = 0"
      by (simp add: j2lenget_def split: nat.splits)
    show ?thesis
      unfolding e using d c' r0 by (simp add: diag_inv_def best z)
  next
    case True
    then have e: "b2j_get b2j (x ! m) = indices_from x 0 (x ! m)"
      using b2j by (auto simp: p)
    let ?js = "indices_from x 0 (x ! m)"
    from indices_from_split[OF m refl, of 0] obtain js1 js2 where
      s: "?js = js1 @ m # js2" "\<forall>j\<in>set js1. j < m" "\<forall>j\<in>set js2. m < j"
      by auto
    have mem: "\<And>j. j \<in> set ?js \<longleftrightarrow> j < ?n \<and> x ! j = x ! m"
      by (simp add: indices_from_set)
    have in1: "\<And>j. j \<in> set js1 \<Longrightarrow> j < ?n \<and> x ! j = x ! m"
      and in2: "\<And>j. j \<in> set js2 \<Longrightarrow> j < ?n \<and> x ! j = x ! m"
      using mem unfolding s(1) by auto
    have pj: "\<And>j. j < ?n \<Longrightarrow> x ! j = x ! m \<Longrightarrow> run p x (Suc j) = Suc (run p x j)"
      using True by (simp add: run.simps(2))
    have runm: "run p x (Suc m) = Suc (run p x m)" using True by (simp add: run.simps(2))
    \<comment> \<open>the map after the row\<close>
    have fst_eq: "fst (flm_inner ?js m 0 ?n j2len (Map.empty, best)) =
        (\<lambda>j. if j \<in> set ?js then Some (j2lenget j2len j + 1) else None)"
      by (rule flm_inner_fst) (simp add: mem)
    \<comment> \<open>the best block after the row\<close>
    let ?k = "run p x (Suc m)"
    have st1: "flm_inner js1 m 0 ?n j2len (Map.empty, best)
                 = (fst (flm_inner js1 m 0 ?n j2len (Map.empty, best)), (bi, bj, bs))"
    proof -
      have "\<forall>j\<in>set js1. 0 \<le> j \<and> j < ?n \<and> j2lenget j2len j + 1 \<le> bs"
      proof
        fix j assume j: "j \<in> set js1"
        with s(2) have "Suc j \<le> m" by auto
        with c have "run p x (Suc j) \<le> bs" by blast
        moreover have "j2lenget j2len j + 1 \<le> run p x (Suc j)"
          using a pj in1[OF j] by (simp add: Suc_le_mono)
        ultimately show "0 \<le> j \<and> j < ?n \<and> j2lenget j2len j + 1 \<le> bs"
          using in1[OF j] by simp
      qed
      from flm_inner_noupdate[OF this, of m "Map.empty" bi bj] show ?thesis
        unfolding best by (simp add: prod_eq_iff)
    qed
    define nm1 where "nm1 = fst (flm_inner js1 m 0 ?n j2len (Map.empty, best))"
    define best2 where "best2 = (if ?k > bs then (m + 1 - ?k, m + 1 - ?k, ?k) else (bi, bj, bs))"
    have km: "j2lenget j2len m + 1 = ?k" using bb runm by simp
    have st2: "flm_inner [m] m 0 ?n j2len (nm1, (bi, bj, bs)) = (nm1(m \<mapsto> ?k), best2)"
      using m km d by (simp add: Let_def best2_def)
    define ci where "ci = fst best2"
    define cs where "cs = snd (snd best2)"
    have b2: "best2 = (ci, ci, cs)" "?k \<le> cs" "bs \<le> cs"
      using d by (simp_all add: best2_def ci_def cs_def)
    have st3: "snd (flm_inner js2 m 0 ?n j2len (nm1(m \<mapsto> ?k), (ci, ci, cs))) = (ci, ci, cs)"
    proof (rule flm_inner_noupdate, rule ballI)
      fix j assume j: "j \<in> set js2"
      have "j2lenget j2len j + 1 \<le> Suc (run p x m)" using a by (simp add: Suc_le_mono)
      with runm b2(2) show "0 \<le> j \<and> j < ?n \<and> j2lenget j2len j + 1 \<le> cs"
        using in2[OF j] by simp
    qed
    have all: "flm_inner ?js m 0 ?n j2len (Map.empty, best)
        = flm_inner js2 m 0 ?n j2len (nm1(m \<mapsto> ?k), (ci, ci, cs))"
    proof -
      have 1: "\<forall>j\<in>set js1. j < ?n" using in1 by blast
      have 2: "\<forall>j\<in>set [m]. j < ?n" using m by simp
      have "flm_inner (js1 @ [m] @ js2) m 0 ?n j2len (Map.empty, best)
          = flm_inner js2 m 0 ?n j2len (flm_inner [m] m 0 ?n j2len (flm_inner js1 m 0 ?n j2len (Map.empty, best)))"
        by (simp only: flm_inner_append[OF 1] flm_inner_append[OF 2])
      also have "\<dots> = flm_inner js2 m 0 ?n j2len (nm1(m \<mapsto> ?k), (ci, ci, cs))"
        using st1 st2 b2(1) by (simp add: nm1_def del: flm_inner.simps)
      finally show ?thesis by (simp add: s(1))
    qed
    have snd_eq: "snd (flm_inner ?js m 0 ?n j2len (Map.empty, best)) = (ci, ci, cs)"
      using all st3 by simp
    have new_c: "\<forall>m'\<le>Suc m. run p x m' \<le> cs"
    proof (intro allI impI)
      fix m' assume "m' \<le> Suc m"
      then consider "m' \<le> m" | "m' = Suc m" by arith
      then show "run p x m' \<le> cs"
      proof cases
        case 1
        with c have "run p x m' \<le> bs" by blast
        with b2(3) show ?thesis by simp
      next
        case 2
        with b2(2) show ?thesis by simp
      qed
    qed
    have new_a: "\<forall>j. j2lenget (\<lambda>j. if j \<in> set ?js then Some (j2lenget j2len j + 1) else None) j \<le> run p x j \<and>
          j2lenget (\<lambda>j. if j \<in> set ?js then Some (j2lenget j2len j + 1) else None) j \<le> run p x (Suc m)"
    proof
      fix j
      show "j2lenget (\<lambda>j. if j \<in> set ?js then Some (j2lenget j2len j + 1) else None) j \<le> run p x j \<and>
          j2lenget (\<lambda>j. if j \<in> set ?js then Some (j2lenget j2len j + 1) else None) j \<le> run p x (Suc m)"
      proof (cases j)
        case 0
        then show ?thesis by (simp add: j2lenget_fun)
      next
        case (Suc j')
        show ?thesis
        proof (cases "j' \<in> set ?js")
          case False
          then show ?thesis using Suc by (simp add: j2lenget_fun)
        next
          case True
          then have jj: "j' < ?n" "x ! j' = x ! m" using mem by auto
          have "j2lenget j2len j' \<le> run p x j'" "j2lenget j2len j' \<le> run p x m"
            using a by auto
          then show ?thesis
            using Suc True pj[OF jj] runm by (simp add: j2lenget_fun)
        qed
      qed
    qed
    have new_b: "j2lenget (\<lambda>j. if j \<in> set ?js then Some (j2lenget j2len j + 1) else None) (Suc m) = ?k"
    proof -
      have "m \<in> set ?js" using mem m by simp
      then show ?thesis using km by (simp add: j2lenget_fun)
    qed
    obtain rm rb where r: "flm_inner ?js m 0 ?n j2len (Map.empty, best) = (rm, rb)"
      by (cases "flm_inner ?js m 0 ?n j2len (Map.empty, best)") auto
    from r fst_eq snd_eq have "rm = (\<lambda>j. if j \<in> set ?js then Some (j2lenget j2len j + 1) else None)"
      "rb = (ci, ci, cs)" by auto
    then show ?thesis
      unfolding e r diag_inv_def using new_a new_b new_c by simp
  qed
qed

lemma diag_outer:
  assumes b2j: "\<forall>c. b2j_get b2j c = [] \<or> b2j_get b2j c = indices_from x 0 c"
      and p: "p = (\<lambda>c. b2j_get b2j c \<noteq> [])"
  shows "diag_inv p x m st \<Longrightarrow> m + r \<le> length x \<Longrightarrow>
         diag_inv p x (m + r) (flm_outer x b2j [m..<m + r] 0 (length x) st)"
proof (induction r arbitrary: m st)
  case 0
  then show ?case by simp
next
  case (Suc r)
  obtain j2len best where st: "st = (j2len, best)" by (cases st) auto
  have up: "[m..<m + Suc r] = m # [Suc m..<Suc m + r]"
    by (simp add: upt_conv_Cons)
  from Suc.prems have m: "m < length x" by simp
  from diag_row[OF Suc.prems(1)[unfolded st] m b2j p]
  have "diag_inv p x (Suc m) (flm_inner (b2j_get b2j (x ! m)) m 0 (length x) j2len (Map.empty, best))" .
  from Suc.IH[OF this] Suc.prems(2)
  have i: "diag_inv p x (Suc m + r)
          (flm_outer x b2j [Suc m..<Suc m + r] 0 (length x)
             (flm_inner (b2j_get b2j (x ! m)) m 0 (length x) j2len (Map.empty, best)))"
    by simp
  have g: "flm_outer x b2j [m..<m + Suc r] 0 (length x) st =
           flm_outer x b2j [Suc m..<Suc m + r] 0 (length x)
             (flm_inner (b2j_get b2j (x ! m)) m 0 (length x) j2len (Map.empty, best))"
    by (simp only: up st flm_outer.simps)
  show ?case
    unfolding g using i by simp
qed

lemma diag_init: "diag_inv p x 0 (Map.empty, (0, 0, 0))"
  by (simp add: diag_inv_def j2lenget_def split: nat.splits)

lemma extend_back_diag: "extend_back False x x 0 0 (s, s, k) = (0, 0, s + k)"
  by (induction s arbitrary: k) (simp_all add: isbjunk_def)

lemma extend_back_junk: "extend_back True x x alo blo best = best"
  by (induction True x x alo blo best rule: extend_back.induct) (simp_all add: isbjunk_def)

lemma extend_fwd_junk: "extend_fwd True a b ahi bhi best = best"
proof -
  obtain i j k where b: "best = (i, j, k)" by (cases best) auto
  show ?thesis unfolding b by (subst extend_fwd.simps) (simp add: isbjunk_def)
qed

lemma extend_fwd_diag:
  "k \<le> n \<Longrightarrow> extend_fwd False x x n n (0, 0, k) = (0, 0, n)"
proof (induction "n - k" arbitrary: k)
  case 0
  then show ?case by (subst extend_fwd.simps) simp
next
  case (Suc d)
  then have "k < n" "d = n - (k + 1)" "k + 1 \<le> n" by simp_all
  with Suc.hyps(1)[of "k + 1"] show ?case
    by (subst extend_fwd.simps) (simp add: isbjunk_def)
qed

lemma find_longest_match_same:
  assumes b2j: "\<forall>c. b2j_get b2j c = [] \<or> b2j_get b2j c = indices_from x 0 c"
  shows "find_longest_match x x b2j 0 (length x) 0 (length x) = (0, 0, length x)"
proof -
  let ?n = "length x"
  define p where "p = (\<lambda>c. b2j_get b2j c \<noteq> [])"
  let ?st = "flm_outer x b2j [0..<?n] 0 ?n (Map.empty, (0, 0, 0))"
  from diag_outer[OF b2j p_def diag_init, of ?n]
  have d: "diag_inv p x ?n ?st" by simp
  obtain bi bj bs where s: "snd ?st = (bi, bj, bs)" by (cases "snd ?st") auto
  from d s have e: "bi = bj"
    by (cases ?st) (auto simp: diag_inv_def)
  have "best_ok 0 ?n 0 ?n (snd (flm_outer x b2j [0 + 0..<0 + 0 + ?n] 0 ?n (Map.empty, (0, 0, 0))))"
    by (rule flm_outer_ok) (simp_all add: j2len_ok_empty best_ok_def)
  with s e have le: "bj + bs \<le> ?n" by (auto simp: best_ok_def)
  show ?thesis
    unfolding find_longest_match_def Let_def s e
    by (simp add: extend_back_diag extend_fwd_diag[OF le] extend_back_junk extend_fwd_junk)
qed

lemma matching_loop_same:
  assumes b2j: "\<forall>c. b2j_get b2j c = [] \<or> b2j_get b2j c = indices_from x 0 c"
  shows "matching_loop x x b2j [(0, length x, 0, length x)] [] =
           (if length x = 0 then [] else [(0, 0, length x)])"
  by (simp add: matching_loop.simps find_longest_match_same[OF b2j])

lemma ratio_same: "ratio x x = 1"
proof -
  have "sum_list (map block_size (get_matching_blocks x x)) = length x"
    unfolding get_matching_blocks_sum
    using matching_loop_same[of "chain_b x" x] b2j_get_chain_b[of x]
    by (simp add: block_size_def)
  then show ?thesis
    unfolding ratio_eq calculate_ratio_def by simp
qed

lemma similarity_ratio_same: "similarity_ratio x x = 1"
  by (simp add: similarity_ratio_def ratio_same)

section \<open>The claims\<close>

text \<open>
  C1 (as amended).  When no album of the list carries the wanted title, the loop keeps the
  first album with the greatest ratio (no album when every ratio is 0).
  \<^verbatim>\<open>JellyfinService\<close> sets \<^verbatim>\<open>similarity_threshold = 0.85\<close>: below 0.85 it returns match
  type \<^verbatim>\<open>none\<close> with the greatest ratio as confidence, from 0.85 on it matches that album
  as \<^verbatim>\<open>similar\<close> with the ratio as confidence.  \<^verbatim>\<open>PlexService\<close> sets
  \<^verbatim>\<open>similarity_threshold = 0.80\<close>: from 0.80 on the album is matched as \<^verbatim>\<open>similar\<close>
  with the ratio as confidence, and below 0.80 the library yields no result at all (the loop
  goes on to the next library).
\<close>

theorem similarity_fallback:
  "(best_similarity label album_name albums (None, 0) = (best_match, best_ratio) \<longrightarrow>
      (\<forall>a\<in>set albums. similarity_ratio (label a) album_name \<le> best_ratio) \<and>
      (0 < best_ratio \<longrightarrow>
         (\<exists>i<length albums. best_match = Some (albums ! i) \<and>
            similarity_ratio (label (albums ! i)) album_name = best_ratio \<and>
            (\<forall>j<i. similarity_ratio (label (albums ! j)) album_name < best_ratio)))) \<and>
   (get_artist_items jsrv artist_name \<noteq> [] \<and>
    list_all has_Name (get_artist_items jsrv artist_name) \<and>
    filter (\<lambda>a. lower (Name_of a) = lower album_name) (get_artist_items jsrv artist_name) = [] \<and>
    best_similarity Name_of album_name (get_artist_items jsrv artist_name) (None, 0) = (jm, jr) \<longrightarrow>
      (jr < 85 / 100 \<longrightarrow>
         jf_check_album_in_library jsrv album_name artist_name spotify_tracks =
           Inr \<lparr>in_library = False, match_type = NoMatch, match_confidence = jr,
                available_tracks = [], missing_tracks = map name spotify_tracks,
                library_album_id = None, library_album_name = None\<rparr>) \<and>
      (85 / 100 \<le> jr \<longrightarrow>
         (\<exists>album. jm = Some album \<and>
            (\<forall>i. item_Id album = Some i \<and> list_all has_Name (jf_get_album_tracks jsrv i) \<longrightarrow>
               (\<exists>r. jf_check_album_in_library jsrv album_name artist_name spotify_tracks = Inr r \<and>
                    in_library r \<and> match_type r = Similar \<and> match_confidence r = jr \<and>
                    library_album_id r = Some i))))) \<and>
   (search_artist_in_library srv (lib_key library) artist_name \<noteq> None \<and>
    get_artist_albums srv (lib_key library) artist_name \<noteq> [] \<and>
    filter (\<lambda>a. lower (title_of a) = lower album_name)
       (get_artist_albums srv (lib_key library) artist_name) = [] \<and>
    best_similarity title_of album_name (get_artist_albums srv (lib_key library) artist_name)
       (None, 0) = (pm, pr) \<longrightarrow>
      (pr < 80 / 100 \<longrightarrow>
         check_library srv album_name artist_name spotify_tracks library = None) \<and>
      (80 / 100 \<le> pr \<longrightarrow>
         (\<exists>album r. pm = Some album \<and>
            check_library srv album_name artist_name spotify_tracks library = Some r \<and>
            in_library r \<and> match_type r = Similar \<and> match_confidence r = pr \<and>
            library_album_id r = Some (ratingKey album))))"
proof (intro conjI impI)
  assume a: "best_similarity label album_name albums (None, 0) = (best_match, best_ratio)"
  from best_similarity_from_zero[OF a]
  show "\<forall>a\<in>set albums. similarity_ratio (label a) album_name \<le> best_ratio" by blast
  assume "0 < best_ratio"
  with best_similarity_from_zero[OF a]
  show "\<exists>i<length albums. best_match = Some (albums ! i) \<and>
            similarity_ratio (label (albums ! i)) album_name = best_ratio \<and>
            (\<forall>j<i. similarity_ratio (label (albums ! j)) album_name < best_ratio)"
    by auto
next
  assume a: "get_artist_items jsrv artist_name \<noteq> [] \<and>
    list_all has_Name (get_artist_items jsrv artist_name) \<and>
    filter (\<lambda>a. lower (Name_of a) = lower album_name) (get_artist_items jsrv artist_name) = [] \<and>
    best_similarity Name_of album_name (get_artist_items jsrv artist_name) (None, 0) = (jm, jr)"
  then have f: "find (\<lambda>a. lower (Name_of a) = lower album_name) (get_artist_items jsrv artist_name) = None"
    by (simp add: find_filter_Nil)
  assume "jr < 85 / 100"
  with a f show "jf_check_album_in_library jsrv album_name artist_name spotify_tracks =
           Inr \<lparr>in_library = False, match_type = NoMatch, match_confidence = jr,
                available_tracks = [], missing_tracks = map name spotify_tracks,
                library_album_id = None, library_album_name = None\<rparr>"
    unfolding jf_check_album_in_library_def Let_def by (simp add: not_found_def)
next
  assume a: "get_artist_items jsrv artist_name \<noteq> [] \<and>
    list_all has_Name (get_artist_items jsrv artist_name) \<and>
    filter (\<lambda>a. lower (Name_of a) = lower album_name) (get_artist_items jsrv artist_name) = [] \<and>
    best_similarity Name_of album_name (get_artist_items jsrv artist_name) (None, 0) = (jm, jr)"
  then have f: "find (\<lambda>a. lower (Name_of a) = lower album_name) (get_artist_items jsrv artist_name) = None"
    by (simp add: find_filter_Nil)
  assume t: "85 / 100 \<le> jr"
  with best_similarity_from_zero[OF a[THEN conjunct2, THEN conjunct2, THEN conjunct2]]
  obtain album where al: "jm = Some album" by auto
  have "\<forall>i. item_Id album = Some i \<and> list_all has_Name (jf_get_album_tracks jsrv i) \<longrightarrow>
               (\<exists>r. jf_check_album_in_library jsrv album_name artist_name spotify_tracks = Inr r \<and>
                    in_library r \<and> match_type r = Similar \<and> match_confidence r = jr \<and>
                    library_album_id r = Some i)"
    unfolding jf_check_album_in_library_def Let_def
    using a f t al by (auto split: prod.splits)
  with al show "\<exists>album. jm = Some album \<and>
            (\<forall>i. item_Id album = Some i \<and> list_all has_Name (jf_get_album_tracks jsrv i) \<longrightarrow>
               (\<exists>r. jf_check_album_in_library jsrv album_name artist_name spotify_tracks = Inr r \<and>
                    in_library r \<and> match_type r = Similar \<and> match_confidence r = jr \<and>
                    library_album_id r = Some i))"
    by blast
next
  assume a: "search_artist_in_library srv (lib_key library) artist_name \<noteq> None \<and>
    get_artist_albums srv (lib_key library) artist_name \<noteq> [] \<and>
    filter (\<lambda>a. lower (title_of a) = lower album_name)
       (get_artist_albums srv (lib_key library) artist_name) = [] \<and>
    best_similarity title_of album_name (get_artist_albums srv (lib_key library) artist_name)
       (None, 0) = (pm, pr)"
  note m = match_album_no_exact[OF a[THEN conjunct2, THEN conjunct2, THEN conjunct1]
              a[THEN conjunct2, THEN conjunct2, THEN conjunct2], of srv "length spotify_tracks"]
  assume "pr < 80 / 100"
  with m show "check_library srv album_name artist_name spotify_tracks library = None"
    by (intro check_library_unmatched[of _ _ _ _ _ "[]" pr]) simp
next
  assume a: "search_artist_in_library srv (lib_key library) artist_name \<noteq> None \<and>
    get_artist_albums srv (lib_key library) artist_name \<noteq> [] \<and>
    filter (\<lambda>a. lower (title_of a) = lower album_name)
       (get_artist_albums srv (lib_key library) artist_name) = [] \<and>
    best_similarity title_of album_name (get_artist_albums srv (lib_key library) artist_name)
       (None, 0) = (pm, pr)"
  note m = match_album_no_exact[OF a[THEN conjunct2, THEN conjunct2, THEN conjunct1]
              a[THEN conjunct2, THEN conjunct2, THEN conjunct2], of srv "length spotify_tracks"]
  assume t: "80 / 100 \<le> pr"
  with best_similarity_from_zero[OF a[THEN conjunct2, THEN conjunct2, THEN conjunct2]]
  obtain album where al: "pm = Some album" by auto
  with m t have m': "match_album srv (get_artist_albums srv (lib_key library) artist_name) album_name
             (length spotify_tracks) = (Some album, [], pr)"
    by simp
  from check_library_matched[OF a[THEN conjunct1] a[THEN conjunct2, THEN conjunct1] m'] al
  show "\<exists>album r. pm = Some album \<and>
            check_library srv album_name artist_name spotify_tracks library = Some r \<and>
            in_library r \<and> match_type r = Similar \<and> match_confidence r = pr \<and>
            library_album_id r = Some (ratingKey album)"
    by auto
qed

theorem similarity_fallback_witness:
  "best_similarity Name_of ''Thriller 25'' (get_artist_items jf_example ''Michael Jackson'') (None, 0)
     = (Some \<lparr>item_Id = Some ''b2'', item_Name = Some ''THRILLER''\<rparr>, 16 / 19) \<and>
   similarity_ratio ''Bad'' ''Thriller 25'' < 16 / 19 \<and>
   jf_check_album_in_library jf_example ''Thriller 25'' ''Michael Jackson'' thriller_tracks =
     Inr \<lparr>in_library = False, match_type = NoMatch, match_confidence = 16 / 19,
          available_tracks = [],
          missing_tracks = [''Wanna Be Startin Somethin'', ''Billie Jean'', ''Thriller''],
          library_album_id = None, library_album_name = None\<rparr> \<and>
   (\<exists>r. jf_check_album_in_library jf_example ''Thrillers'' ''Michael Jackson'' thriller_tracks = Inr r \<and>
        match_type r = Similar \<and> match_confidence r = 16 / 17 \<and>
        library_album_id r = Some ''b2'') \<and>
   (\<exists>r. check_library plex_example ''Thriller 25'' ''Michael Jackson'' thriller_tracks
          \<lparr>lib_key = Some ''2'', lib_title = Some ''Vinyl''\<rparr> = Some r \<and>
        match_type r = Similar \<and> match_confidence r = 16 / 19 \<and>
        library_album_id r = Some ''40'') \<and>
   check_library plex_example ''Dangerous'' ''Michael Jackson'' thriller_tracks
          \<lparr>lib_key = Some ''2'', lib_title = Some ''Vinyl''\<rparr> = None"
proof -
  let ?lib = "\<lparr>lib_key = Some ''2'', lib_title = Some ''Vinyl''\<rparr>"
  let ?jalbums = "get_artist_items jf_example ''Michael Jackson''"
  let ?palbums = "get_artist_albums plex_example (lib_key ?lib) ''Michael Jackson''"
  let ?jm = "Some \<lparr>item_Id = Some ''b2'', item_Name = Some ''THRILLER''\<rparr>"
  let ?pm = "Some (entry ''40'' ''Thriller'' ''Michael Jackson'')"
  \<comment> \<open>16/19 lies between 0.80 and 0.85\<close>
  note t = similarity_fallback[where label = Name_of and album_name = "''Thriller 25''"
      and albums = ?jalbums and best_match = ?jm and best_ratio = "16 / 19"
      and jsrv = jf_example and artist_name = "''Michael Jackson''" and jm = ?jm and jr = "16 / 19"
      and spotify_tracks = thriller_tracks and srv = plex_example and library = ?lib
      and pm = ?pm and pr = "16 / 19"]
  \<comment> \<open>above 0.85 for Jellyfin\<close>
  note u = similarity_fallback[where label = Name_of and album_name = "''Thrillers''"
      and albums = ?jalbums and best_match = ?jm and best_ratio = "16 / 17"
      and jsrv = jf_example and artist_name = "''Michael Jackson''" and jm = ?jm and jr = "16 / 17"
      and spotify_tracks = thriller_tracks and srv = plex_example and library = ?lib
      and pm = ?pm and pr = "4 / 17"]
  \<comment> \<open>below 0.80 for Plex\<close>
  note v = similarity_fallback[where label = Name_of and album_name = "''Dangerous''"
      and albums = ?jalbums and best_match = ?jm and best_ratio = "4 / 17"
      and jsrv = jf_example and artist_name = "''Michael Jackson''" and jm = ?jm and jr = "4 / 17"
      and spotify_tracks = thriller_tracks and srv = plex_example and library = ?lib
      and pm = ?pm and pr = "4 / 17"]
  have j: "?jalbums \<noteq> []" "list_all has_Name ?jalbums"
    "?jalbums = [\<lparr>item_Id = Some ''b1'', item_Name = Some ''Bad''\<rparr>,
                 \<lparr>item_Id = Some ''b2'', item_Name = Some ''THRILLER''\<rparr>]"
    by code_simp+
  have j25: "filter (\<lambda>a. lower (Name_of a) = lower ''Thriller 25'') ?jalbums = []"
    "best_similarity Name_of ''Thriller 25'' ?jalbums (None, 0) = (?jm, 16 / 19)"
    by code_simp+
  have js: "filter (\<lambda>a. lower (Name_of a) = lower ''Thrillers'') ?jalbums = []"
    "best_similarity Name_of ''Thrillers'' ?jalbums (None, 0) = (?jm, 16 / 17)"
    "list_all has_Name (jf_get_album_tracks jf_example ''b2'')"
    by code_simp+
  have p: "search_artist_in_library plex_example (lib_key ?lib) ''Michael Jackson'' \<noteq> None"
    "?palbums \<noteq> []"
    by code_simp+
  have p25: "filter (\<lambda>a. lower (title_of a) = lower ''Thriller 25'') ?palbums = []"
    "best_similarity title_of ''Thriller 25'' ?palbums (None, 0) = (?pm, 16 / 19)"
    by code_simp+
  have pd: "filter (\<lambda>a. lower (title_of a) = lower ''Dangerous'') ?palbums = []"
    "best_similarity title_of ''Dangerous'' ?palbums (None, 0) = (?pm, 4 / 17)"
    by code_simp+
  from t[THEN conjunct1, rule_format, OF j25(2), THEN conjunct1] j(3)
  have 0: "similarity_ratio ''Bad'' ''Thriller 25'' \<le> 16 / 19"
    by (simp add: Name_of_def)
  have "similarity_ratio ''Bad'' ''Thriller 25'' \<noteq> 16 / 19" by code_simp
  with 0 have 0: "similarity_ratio ''Bad'' ''Thriller 25'' < 16 / 19" by simp
  from t[THEN conjunct2, THEN conjunct1, rule_format, THEN conjunct1, rule_format] j(1,2) j25
  have 1: "jf_check_album_in_library jf_example ''Thriller 25'' ''Michael Jackson'' thriller_tracks =
     Inr \<lparr>in_library = False, match_type = NoMatch, match_confidence = 16 / 19,
          available_tracks = [],
          missing_tracks = [''Wanna Be Startin Somethin'', ''Billie Jean'', ''Thriller''],
          library_album_id = None, library_album_name = None\<rparr>"
    by (simp add: thriller_tracks_def)
  from u[THEN conjunct2, THEN conjunct1, rule_format, THEN conjunct2, rule_format] j(1,2) js
  have 2: "\<exists>r. jf_check_album_in_library jf_example ''Thrillers'' ''Michael Jackson'' thriller_tracks = Inr r \<and>
        match_type r = Similar \<and> match_confidence r = 16 / 17 \<and>
        library_album_id r = Some ''b2''"
    by auto
  from t[THEN conjunct2, THEN conjunct2, rule_format, THEN conjunct2, rule_format] p p25
  have 3: "\<exists>r. check_library plex_example ''Thriller 25'' ''Michael Jackson'' thriller_tracks ?lib = Some r \<and>
        match_type r = Similar \<and> match_confidence r = 16 / 19 \<and>
        library_album_id r = Some ''40''"
    by (auto simp: entry_def)
  from v[THEN conjunct2, THEN conjunct2, rule_format, THEN conjunct1, rule_format] p pd
  have 4: "check_library plex_example ''Dangerous'' ''Michael Jackson'' thriller_tracks ?lib = None"
    by simp
  from j25(2) 0 1 2 3 4 show ?thesis by blast
qed

theorem similarity_fallback_counterexample:
  "filter (\<lambda>a. lower (title_of a) = lower ''Thriller 25'')
      (get_artist_albums plex_example (Some ''2'') ''Michael Jackson'') = [] \<and>
   best_similarity title_of ''Thriller 25''
      (get_artist_albums plex_example (Some ''2'') ''Michael Jackson'') (None, 0)
     = (Some (entry ''40'' ''Thriller'' ''Michael Jackson''), 16 / 19) \<and>
   \<not> (85 / 100 \<le> (16 / 19 :: real)) \<and>
   plex_check_album_in_library plex_example ''Thriller 25'' ''Michael Jackson'' thriller_tracks
     = \<lparr>in_library = True, match_type = Similar, match_confidence = 16 / 19,
        available_tracks = [],
        missing_tracks = [''Wanna Be Startin Somethin'', ''Billie Jean'', ''Thriller''],
        library_album_id = Some ''40'', library_album_name = Some ''Thriller''\<rparr>"
  by code_simp

text \<open>
  C2.  Every result that \<^verbatim>\<open>check_album_in_library\<close> returns (the Plex method always
  returns one, the Jellyfin method unless a \<^verbatim>\<open>KeyError\<close> escapes) satisfies: the names
  in \<open>available_tracks\<close> and in \<open>missing_tracks\<close> together are the names of the Spotify
  tracks, and no name is in both; match type \<^verbatim>\<open>none\<close> implies not in the library, no
  available track and all Spotify track names missing; match type \<^verbatim>\<open>exact\<close> implies
  confidence 1.0.
\<close>

theorem reconciliation_result_invariant:
  assumes "r = plex_check_album_in_library srv album_name artist_name spotify_tracks
           \<or> jf_check_album_in_library jsrv album_name artist_name spotify_tracks = Inr r"
  shows "set (available_tracks r) \<union> set (missing_tracks r) = name ` set spotify_tracks \<and>
         set (available_tracks r) \<inter> set (missing_tracks r) = {} \<and>
         (match_type r = NoMatch \<longrightarrow>
            \<not> in_library r \<and> available_tracks r = [] \<and>
            missing_tracks r = map name spotify_tracks) \<and>
         (match_type r = Exact \<longrightarrow> match_confidence r = 1)"
proof -
  from assms have "result_ok spotify_tracks r"
    using plex_check_ok jf_check_ok by blast
  then show ?thesis by (simp add: result_ok_def)
qed

theorem reconciliation_result_invariant_witness:
  "jf_check_album_in_library jf_example ''Thriller'' ''Michael Jackson'' thriller_tracks =
     Inr \<lparr>in_library = True, match_type = Exact, match_confidence = 1,
          available_tracks = [''Billie Jean''],
          missing_tracks = [''Wanna Be Startin Somethin'', ''Thriller''],
          library_album_id = Some ''b2'', library_album_name = Some ''THRILLER''\<rparr> \<and>
   set [''Billie Jean''] \<union> set [''Wanna Be Startin Somethin'', ''Thriller''] =
     name ` set thriller_tracks \<and>
   set [''Billie Jean''] \<inter> set [''Wanna Be Startin Somethin'', ''Thriller''] = {} \<and>
   match_type (plex_check_album_in_library plex_example ''Dangerous'' ''Michael Jackson''
                 thriller_tracks) = NoMatch \<and>
   \<not> in_library (plex_check_album_in_library plex_example ''Dangerous'' ''Michael Jackson''
                 thriller_tracks) \<and>
   missing_tracks (plex_check_album_in_library plex_example ''Dangerous'' ''Michael Jackson''
                 thriller_tracks) = map name thriller_tracks"
proof -
  let ?p = "plex_check_album_in_library plex_example ''Dangerous'' ''Michael Jackson'' thriller_tracks"
  have e: "jf_check_album_in_library jf_example ''Thriller'' ''Michael Jackson'' thriller_tracks =
     Inr \<lparr>in_library = True, match_type = Exact, match_confidence = 1,
          available_tracks = [''Billie Jean''],
          missing_tracks = [''Wanna Be Startin Somethin'', ''Thriller''],
          library_album_id = Some ''b2'', library_album_name = Some ''THRILLER''\<rparr>"
    by code_simp
  have n: "match_type ?p = NoMatch"
    by code_simp
  from reconciliation_result_invariant[OF disjI2, OF e]
  have 1: "set [''Billie Jean''] \<union> set [''Wanna Be Startin Somethin'', ''Thriller''] =
     name ` set thriller_tracks \<and>
   set [''Billie Jean''] \<inter> set [''Wanna Be Startin Somethin'', ''Thriller''] = {}"
    by simp
  from reconciliation_result_invariant[where r = ?p and srv = plex_example
        and album_name = "''Dangerous''" and artist_name = "''Michael Jackson''"
        and spotify_tracks = thriller_tracks, OF disjI1, OF refl] n
  have 2: "\<not> in_library ?p \<and> missing_tracks ?p = map name thriller_tracks"
    by simp
  show ?thesis
    apply (intro conjI)
    using e 1 n 2 by simp_all
qed

text \<open>
  C3 (as amended).  A not-found result of \<^verbatim>\<open>PlexService\<close> is always the dict with confidence
  0.0: the ratios seen in the libraries are not kept.  A not-found result of
  \<^verbatim>\<open>JellyfinService\<close>, which looks at one album list, has confidence 0.0 when the list is
  empty and otherwise the greatest album-title ratio of the list (which is below 0.85).
\<close>

theorem not_found_confidence:
  "(match_type (plex_check_album_in_library srv album_name artist_name spotify_tracks) = NoMatch \<longrightarrow>
      plex_check_album_in_library srv album_name artist_name spotify_tracks =
        \<lparr>in_library = False, match_type = NoMatch, match_confidence = 0,
         available_tracks = [], missing_tracks = map name spotify_tracks,
         library_album_id = None, library_album_name = None\<rparr>) \<and>
   (jf_check_album_in_library jsrv album_name artist_name spotify_tracks = Inr r \<and>
    match_type r = NoMatch \<longrightarrow>
      (get_artist_items jsrv artist_name = [] \<and> match_confidence r = 0) \<or>
      (get_artist_items jsrv artist_name \<noteq> [] \<and>
       match_confidence r =
         Max ((\<lambda>a. similarity_ratio (Name_of a) album_name) ` set (get_artist_items jsrv artist_name)) \<and>
       match_confidence r < 85 / 100))"
proof (intro conjI impI)
  assume "match_type (plex_check_album_in_library srv album_name artist_name spotify_tracks) = NoMatch"
  with result_ok_NoMatch[OF plex_check_ok]
  have "\<not> in_library (plex_check_album_in_library srv album_name artist_name spotify_tracks)" .
  from plex_not_in_library[OF this]
  show "plex_check_album_in_library srv album_name artist_name spotify_tracks =
        \<lparr>in_library = False, match_type = NoMatch, match_confidence = 0,
         available_tracks = [], missing_tracks = map name spotify_tracks,
         library_album_id = None, library_album_name = None\<rparr>"
    by (simp add: not_found_def)
next
  let ?albums = "get_artist_items jsrv artist_name"
  let ?f = "\<lambda>a. similarity_ratio (Name_of a) album_name"
  assume a: "jf_check_album_in_library jsrv album_name artist_name spotify_tracks = Inr r \<and>
    match_type r = NoMatch"
  show "(?albums = [] \<and> match_confidence r = 0) \<or>
      (?albums \<noteq> [] \<and> match_confidence r = Max (?f ` set ?albums) \<and> match_confidence r < 85 / 100)"
  proof (cases "?albums = []")
    case True
    with a show ?thesis
      unfolding jf_check_album_in_library_def Let_def by (auto simp: not_found_def)
  next
    case False
    obtain bm br where b: "best_similarity Name_of album_name ?albums (None, 0) = (bm, br)"
      by (cases "best_similarity Name_of album_name ?albums (None, 0)") auto
    note s = best_similarity_from_zero[OF b]
    from a False b s have r: "match_confidence r = br" "br < 85 / 100"
      unfolding jf_check_album_in_library_def Let_def
      by (auto simp: not_found_def split: if_splits option.splits prod.splits)
    have "br \<in> ?f ` set ?albums"
    proof (cases "br = 0")
      case True
      from False obtain x where x: "x \<in> set ?albums" by (cases ?albums) auto
      with s True have "?f x \<le> 0" by auto
      with similarity_ratio_nonneg[of "Name_of x" album_name] have "?f x = 0" by simp
      with x True show ?thesis by force
    next
      case False
      with s obtain i where "i < length ?albums" "?f (?albums ! i) = br" by auto
      then show ?thesis by (metis imageI nth_mem)
    qed
    moreover from s have "\<forall>y\<in>?f ` set ?albums. y \<le> br" by auto
    ultimately have "Max (?f ` set ?albums) = br"
      by (intro Max_eqI) auto
    with r False show ?thesis by simp
  qed
qed

theorem not_found_confidence_witness:
  "plex_check_album_in_library plex_example ''Dangerous'' ''Michael Jackson'' thriller_tracks
     = \<lparr>in_library = False, match_type = NoMatch, match_confidence = 0,
        available_tracks = [],
        missing_tracks = [''Wanna Be Startin Somethin'', ''Billie Jean'', ''Thriller''],
        library_album_id = None, library_album_name = None\<rparr> \<and>
   jf_check_album_in_library jf_example ''Dangerous'' ''Michael Jackson'' thriller_tracks
     = Inr \<lparr>in_library = False, match_type = NoMatch, match_confidence = 4 / 17,
        available_tracks = [],
        missing_tracks = [''Wanna Be Startin Somethin'', ''Billie Jean'', ''Thriller''],
        library_album_id = None, library_album_name = None\<rparr> \<and>
   Max ((\<lambda>a. similarity_ratio (Name_of a) ''Dangerous'') `
          set (get_artist_items jf_example ''Michael Jackson'')) = 4 / 17"
proof -
  let ?r = "\<lparr>in_library = False, match_type = NoMatch, match_confidence = 4 / 17,
        available_tracks = [],
        missing_tracks = [''Wanna Be Startin Somethin'', ''Billie Jean'', ''Thriller''],
        library_album_id = None, library_album_name = None\<rparr>"
  note t = not_found_confidence[where srv = plex_example and album_name = "''Dangerous''"
      and artist_name = "''Michael Jackson''" and spotify_tracks = thriller_tracks
      and jsrv = jf_example and r = ?r]
  have p: "match_type (plex_check_album_in_library plex_example ''Dangerous'' ''Michael Jackson''
              thriller_tracks) = NoMatch"
    by code_simp
  have j: "jf_check_album_in_library jf_example ''Dangerous'' ''Michael Jackson'' thriller_tracks = Inr ?r"
    by code_simp
  have ne: "get_artist_items jf_example ''Michael Jackson'' \<noteq> []" by code_simp
  from t[THEN conjunct1, rule_format, OF p]
  have 1: "plex_check_album_in_library plex_example ''Dangerous'' ''Michael Jackson'' thriller_tracks
     = \<lparr>in_library = False, match_type = NoMatch, match_confidence = 0,
        available_tracks = [],
        missing_tracks = [''Wanna Be Startin Somethin'', ''Billie Jean'', ''Thriller''],
        library_album_id = None, library_album_name = None\<rparr>"
    by (simp add: thriller_tracks_def)
  from t[THEN conjunct2, rule_format, OF conjI[OF j]] ne
  have 2: "Max ((\<lambda>a. similarity_ratio (Name_of a) ''Dangerous'') `
          set (get_artist_items jf_example ''Michael Jackson'')) = 4 / 17"
    by simp
  from 1 j 2 show ?thesis by blast
qed

theorem not_found_confidence_counterexample:
  "search_artist_in_library plex_example (Some ''1'') ''Michael Jackson'' \<noteq> None \<and>
   best_similarity title_of ''Dangerous''
      (get_artist_albums plex_example (Some ''1'') ''Michael Jackson'') (None, 0)
     = (Some (entry ''20'' ''Thriller'' ''Michael Jackson''), 4 / 17) \<and>
   plex_check_album_in_library plex_example ''Dangerous'' ''Michael Jackson'' thriller_tracks
     = \<lparr>in_library = False, match_type = NoMatch, match_confidence = 0,
        available_tracks = [],
        missing_tracks = [''Wanna Be Startin Somethin'', ''Billie Jean'', ''Thriller''],
        library_album_id = None, library_album_name = None\<rparr> \<and>
   (0 :: real) \<noteq> 4 / 17"
  by code_simp

text \<open>
  C4.  When exactly one album of the list carries the wanted title (compared in lower case),
  that album is the match, with match type \<^verbatim>\<open>exact\<close> and confidence 1.0, whatever the ratios
  of the other albums: for the album matching of a Plex library, for the result of the pass
  over that library (which is then the result of the loop), and for Jellyfin (whose items must
  carry the keys the method reads by subscript).
\<close>

theorem single_exact_title_match:
  "(filter (\<lambda>a. lower (title_of a) = lower album_name) albums = [album] \<longrightarrow>
      fst (match_album srv albums album_name n) = Some album) \<and>
   (search_artist_in_library srv (lib_key library) artist_name \<noteq> None \<and>
    filter (\<lambda>a. lower (title_of a) = lower album_name)
      (get_artist_albums srv (lib_key library) artist_name) = [album] \<longrightarrow>
      (\<exists>r. check_library srv album_name artist_name spotify_tracks library = Some r \<and>
           check_libraries srv album_name artist_name spotify_tracks (library # rest) = r \<and>
           in_library r \<and> match_type r = Exact \<and> match_confidence r = 1 \<and>
           library_album_id r = Some (ratingKey album) \<and> library_album_name r = title album)) \<and>
   (list_all has_Name (get_artist_items jsrv artist_name) \<and>
    filter (\<lambda>a. lower (Name_of a) = lower album_name) (get_artist_items jsrv artist_name)
      = [jf_album] \<and>
    item_Id jf_album = Some jellyfin_album_id \<and>
    list_all has_Name (jf_get_album_tracks jsrv jellyfin_album_id) \<longrightarrow>
      (\<exists>r. jf_check_album_in_library jsrv album_name artist_name spotify_tracks = Inr r \<and>
           in_library r \<and> match_type r = Exact \<and> match_confidence r = 1 \<and>
           library_album_id r = Some jellyfin_album_id \<and>
           library_album_name r = item_Name jf_album))"
proof (intro conjI impI)
  assume "filter (\<lambda>a. lower (title_of a) = lower album_name) albums = [album]"
  then show "fst (match_album srv albums album_name n) = Some album"
    by (simp add: match_album_single)
next
  assume a: "search_artist_in_library srv (lib_key library) artist_name \<noteq> None \<and>
    filter (\<lambda>a. lower (title_of a) = lower album_name)
      (get_artist_albums srv (lib_key library) artist_name) = [album]"
  then have ne: "get_artist_albums srv (lib_key library) artist_name \<noteq> []" by auto
  from check_library_matched[OF conjunct1[OF a] ne
         match_album_single[OF conjunct2[OF a], of srv "length spotify_tracks"]]
  obtain r where "check_library srv album_name artist_name spotify_tracks library = Some r"
    "in_library r" "match_type r = Exact" "match_confidence r = 1"
    "library_album_id r = Some (ratingKey album)" "library_album_name r = title album"
    by auto
  then show "\<exists>r. check_library srv album_name artist_name spotify_tracks library = Some r \<and>
           check_libraries srv album_name artist_name spotify_tracks (library # rest) = r \<and>
           in_library r \<and> match_type r = Exact \<and> match_confidence r = 1 \<and>
           library_album_id r = Some (ratingKey album) \<and> library_album_name r = title album"
    by (intro exI[of _ r]) simp
next
  assume a: "list_all has_Name (get_artist_items jsrv artist_name) \<and>
    filter (\<lambda>a. lower (Name_of a) = lower album_name) (get_artist_items jsrv artist_name)
      = [jf_album] \<and>
    item_Id jf_album = Some jellyfin_album_id \<and>
    list_all has_Name (jf_get_album_tracks jsrv jellyfin_album_id)"
  then have f: "find (\<lambda>a. lower (Name_of a) = lower album_name) (get_artist_items jsrv artist_name)
      = Some jf_album"
    by (simp add: find_filter_Cons)
  from a have ne: "get_artist_items jsrv artist_name \<noteq> []" by auto
  from a have "jf_album \<in> set (filter (\<lambda>a. lower (Name_of a) = lower album_name)
      (get_artist_items jsrv artist_name))"
    by simp
  then have "jf_album \<in> set (get_artist_items jsrv artist_name)"
    by simp
  with a have nm: "item_Name jf_album = Some (Name_of jf_album)"
    by (auto simp: list_all_iff has_Name_def Name_of_def)
  show "\<exists>r. jf_check_album_in_library jsrv album_name artist_name spotify_tracks = Inr r \<and>
           in_library r \<and> match_type r = Exact \<and> match_confidence r = 1 \<and>
           library_album_id r = Some jellyfin_album_id \<and>
           library_album_name r = item_Name jf_album"
    unfolding jf_check_album_in_library_def Let_def
    using a f ne nm by (auto split: prod.splits)
qed

theorem single_exact_title_match_witness:
  "fst (match_album plex_example
          (get_artist_albums plex_example (Some ''1'') ''Michael Jackson'') ''thriller'' 3)
     = Some (entry ''20'' ''Thriller'' ''Michael Jackson'') \<and>
   (\<exists>r. check_library plex_example ''thriller'' ''Michael Jackson'' thriller_tracks
          \<lparr>lib_key = Some ''1'', lib_title = Some ''Music''\<rparr> = Some r \<and>
        match_type r = Exact \<and> match_confidence r = 1 \<and> library_album_id r = Some ''20'') \<and>
   (\<exists>r. jf_check_album_in_library jf_example ''thriller'' ''Michael Jackson'' thriller_tracks = Inr r \<and>
        match_type r = Exact \<and> match_confidence r = 1 \<and> library_album_id r = Some ''b2'')"
proof -
  let ?album = "entry ''20'' ''Thriller'' ''Michael Jackson''"
  let ?jf_album = "\<lparr>item_Id = Some ''b2'', item_Name = Some ''THRILLER''\<rparr>"
  let ?lib = "\<lparr>lib_key = Some ''1'', lib_title = Some ''Music''\<rparr>"
  note t = single_exact_title_match[where album_name = "''thriller''"
      and albums = "get_artist_albums plex_example (Some ''1'') ''Michael Jackson''"
      and album = ?album and srv = plex_example and n = 3
      and library = ?lib
      and artist_name = "''Michael Jackson''" and spotify_tracks = thriller_tracks
      and rest = "[]" and jsrv = jf_example and jf_album = ?jf_album
      and jellyfin_album_id = "''b2''"]
  have a: "search_artist_in_library plex_example (lib_key ?lib) ''Michael Jackson'' \<noteq> None"
    by code_simp
  have f: "filter (\<lambda>a. lower (title_of a) = lower ''thriller'')
      (get_artist_albums plex_example (lib_key ?lib) ''Michael Jackson'') = [?album]"
    by code_simp
  have f': "filter (\<lambda>a. lower (title_of a) = lower ''thriller'')
      (get_artist_albums plex_example (Some ''1'') ''Michael Jackson'') = [?album]"
    using f by simp
  have j: "list_all has_Name (get_artist_items jf_example ''Michael Jackson'')"
     "filter (\<lambda>a. lower (Name_of a) = lower ''thriller'')
        (get_artist_items jf_example ''Michael Jackson'') = [?jf_album]"
     "list_all has_Name (jf_get_album_tracks jf_example ''b2'')"
    by code_simp+
  have k: "ratingKey ?album = ''20''" by (simp add: entry_def)
  from t[THEN conjunct1, rule_format, OF f']
  have 0: "fst (match_album plex_example
          (get_artist_albums plex_example (Some ''1'') ''Michael Jackson'') ''thriller'' 3)
     = Some ?album" .
  from t[THEN conjunct2, THEN conjunct1, rule_format, OF conjI[OF a f]] k
  have 1: "\<exists>r. check_library plex_example ''thriller'' ''Michael Jackson'' thriller_tracks
          ?lib = Some r \<and>
        match_type r = Exact \<and> match_confidence r = 1 \<and> library_album_id r = Some ''20''"
    by auto
  from t[THEN conjunct2, THEN conjunct2, rule_format] j
  have 2: "\<exists>r. jf_check_album_in_library jf_example ''thriller'' ''Michael Jackson'' thriller_tracks = Inr r \<and>
        match_type r = Exact \<and> match_confidence r = 1 \<and> library_album_id r = Some ''b2''"
    by auto
  from 0 1 2 show ?thesis by blast
qed

text \<open>
  C5.  When several albums of a Plex library carry the wanted title, the match is the one
  whose fetched track count is nearest to the number of Spotify tracks: its distance is at most
  that of every other duplicate, and strictly below that of every duplicate before it in the
  list (the first one wins a tie).  The result is \<^verbatim>\<open>exact\<close> with confidence 1.0.
\<close>

theorem duplicate_titles_closest_track_count:
  assumes "exact_matches = filter (\<lambda>a. lower (title_of a) = lower album_name) albums"
      and "length exact_matches > 1"
  shows "\<exists>i<length exact_matches.
           fst (match_album srv albums album_name n) = Some (exact_matches ! i) \<and>
           (\<forall>j<length exact_matches.
              nat \<bar>int (length (get_album_tracks srv (key (exact_matches ! i)))) - int n\<bar>
              \<le> nat \<bar>int (length (get_album_tracks srv (key (exact_matches ! j)))) - int n\<bar>) \<and>
           (\<forall>j<i.
              nat \<bar>int (length (get_album_tracks srv (key (exact_matches ! i)))) - int n\<bar>
              < nat \<bar>int (length (get_album_tracks srv (key (exact_matches ! j)))) - int n\<bar>) \<and>
           (search_artist_in_library srv (lib_key library) artist_name \<noteq> None \<and>
            albums = get_artist_albums srv (lib_key library) artist_name \<and>
            n = length spotify_tracks \<longrightarrow>
              (\<exists>r. check_library srv album_name artist_name spotify_tracks library = Some r \<and>
                   in_library r \<and> match_type r = Exact \<and> match_confidence r = 1 \<and>
                   library_album_id r = Some (ratingKey (exact_matches ! i))))"
proof -
  from assms have ne: "exact_matches \<noteq> []" "albums \<noteq> []" by auto
  from closest_track_count_first_min[OF ne(1), of srv n]
  obtain i where i: "i < length exact_matches"
     "fst (closest_track_count srv n exact_matches (None, None)) = Some (exact_matches ! i)"
     "\<forall>j<length exact_matches. track_diff srv n (exact_matches ! i) \<le> track_diff srv n (exact_matches ! j)"
     "\<forall>j<i. track_diff srv n (exact_matches ! i) < track_diff srv n (exact_matches ! j)"
    by blast
  have m: "match_album srv albums album_name n = (Some (exact_matches ! i), exact_matches, 0)"
    using match_album_many[of album_name albums srv n] assms i(2) by simp
  have lib: "search_artist_in_library srv (lib_key library) artist_name \<noteq> None \<and>
            albums = get_artist_albums srv (lib_key library) artist_name \<and>
            n = length spotify_tracks \<longrightarrow>
              (\<exists>r. check_library srv album_name artist_name spotify_tracks library = Some r \<and>
                   in_library r \<and> match_type r = Exact \<and> match_confidence r = 1 \<and>
                   library_album_id r = Some (ratingKey (exact_matches ! i)))"
  proof
    assume a: "search_artist_in_library srv (lib_key library) artist_name \<noteq> None \<and>
            albums = get_artist_albums srv (lib_key library) artist_name \<and>
            n = length spotify_tracks"
    from a ne m have
      "match_album srv (get_artist_albums srv (lib_key library) artist_name) album_name
             (length spotify_tracks) = (Some (exact_matches ! i), exact_matches, 0)"
      "get_artist_albums srv (lib_key library) artist_name \<noteq> []"
      by auto
    from check_library_matched[OF conjunct1[OF a] this(2) this(1)] ne
    show "\<exists>r. check_library srv album_name artist_name spotify_tracks library = Some r \<and>
                   in_library r \<and> match_type r = Exact \<and> match_confidence r = 1 \<and>
                   library_album_id r = Some (ratingKey (exact_matches ! i))"
      by auto
  qed
  from i m lib show ?thesis
    unfolding track_diff_def by (intro exI[of _ i]) simp
qed

theorem duplicate_titles_closest_track_count_witness:
  "filter (\<lambda>a. lower (title_of a) = lower ''Bad'')
      (get_artist_albums plex_example (Some ''1'') ''Michael Jackson'')
     = [entry ''21'' ''Bad'' ''Michael Jackson'', entry ''22'' ''BAD'' ''michael jackson''] \<and>
   length (get_album_tracks plex_example (key (entry ''21'' ''Bad'' ''Michael Jackson''))) = 2 \<and>
   length (get_album_tracks plex_example (key (entry ''22'' ''BAD'' ''michael jackson''))) = 4 \<and>
   fst (match_album plex_example (get_artist_albums plex_example (Some ''1'') ''Michael Jackson'')
          ''Bad'' 3) = Some (entry ''21'' ''Bad'' ''Michael Jackson'') \<and>
   fst (match_album plex_example (get_artist_albums plex_example (Some ''1'') ''Michael Jackson'')
          ''Bad'' 4) = Some (entry ''22'' ''BAD'' ''michael jackson'') \<and>
   (\<exists>r. check_library plex_example ''Bad'' ''Michael Jackson'' thriller_tracks
          \<lparr>lib_key = Some ''1'', lib_title = Some ''Music''\<rparr> = Some r \<and>
        match_type r = Exact \<and> match_confidence r = 1 \<and> library_album_id r = Some ''21'')"
proof -
  let ?lib = "\<lparr>lib_key = Some ''1'', lib_title = Some ''Music''\<rparr>"
  let ?albums = "get_artist_albums plex_example (Some ''1'') ''Michael Jackson''"
  let ?e = "[entry ''21'' ''Bad'' ''Michael Jackson'', entry ''22'' ''BAD'' ''michael jackson'']"
  have f: "filter (\<lambda>a. lower (title_of a) = lower ''Bad'') ?albums = ?e"
    by code_simp
  have l: "length (get_album_tracks plex_example (key (entry ''21'' ''Bad'' ''Michael Jackson''))) = 2"
     "length (get_album_tracks plex_example (key (entry ''22'' ''BAD'' ''michael jackson''))) = 4"
    by code_simp+
  have m4: "fst (match_album plex_example ?albums ''Bad'' 4) = Some (entry ''22'' ''BAD'' ''michael jackson'')"
    by code_simp
  have a: "search_artist_in_library plex_example (lib_key ?lib) ''Michael Jackson'' \<noteq> None"
    by code_simp
  have len: "1 < length ?e" by simp
  have n3: "(3::nat) = length thriller_tracks" by (simp add: thriller_tracks_def)
  from duplicate_titles_closest_track_count[where exact_matches = ?e and album_name = "''Bad''"
         and albums = ?albums and srv = plex_example and n = 3
         and library = ?lib
         and artist_name = "''Michael Jackson''" and spotify_tracks = thriller_tracks,
         OF f[symmetric] len]
  obtain i where i: "i < length ?e" "fst (match_album plex_example ?albums ''Bad'' 3) = Some (?e ! i)"
    "\<forall>j<i. nat \<bar>int (length (get_album_tracks plex_example (key (?e ! i)))) - int 3\<bar>
              < nat \<bar>int (length (get_album_tracks plex_example (key (?e ! j)))) - int 3\<bar>"
    "search_artist_in_library plex_example (lib_key ?lib) ''Michael Jackson'' \<noteq> None \<and>
     ?albums = get_artist_albums plex_example (lib_key ?lib) ''Michael Jackson'' \<and>
     3 = length thriller_tracks \<longrightarrow>
       (\<exists>r. check_library plex_example ''Bad'' ''Michael Jackson'' thriller_tracks ?lib = Some r \<and>
            in_library r \<and> match_type r = Exact \<and> match_confidence r = 1 \<and>
            library_album_id r = Some (ratingKey (?e ! i)))"
    by blast
  have i0: "i = 0"
  proof (rule ccontr)
    assume "i \<noteq> 0"
    with i(1) have "i = 1" by simp
    with i(3) l show False by auto
  qed
  from i(4) a n3 i0
  have r: "\<exists>r. check_library plex_example ''Bad'' ''Michael Jackson'' thriller_tracks ?lib = Some r \<and>
        match_type r = Exact \<and> match_confidence r = 1 \<and> library_album_id r = Some ''21''"
    by (auto simp: entry_def)
  from i0 i(2) f l m4 r show ?thesis by simp
qed

text \<open>
  C6.  A Spotify track is put into \<open>available_tracks\<close> exactly when its lower-cased name is
  among the lower-cased titles of the library tracks, or the ratio of its name and some
  library title is at least 0.90; otherwise it is put into \<open>missing_tracks\<close>.  \<open>label\<close>
  is the title of a library track: \<open>title_of\<close> for Plex, \<open>Name_of\<close> for Jellyfin
  (see \<open>check_library_compare\<close> and \<open>jf_check_compare\<close>).
\<close>

theorem track_classification:
  assumes "compare_tracks (remdups (map (\<lambda>track. lower (label track)) library_tracks))
             spotify_tracks ([], []) = (available, missing)"
      and "t \<in> set spotify_tracks"
  shows "(name t \<in> set available \<longleftrightarrow>
            lower (name t) \<in> (\<lambda>track. lower (label track)) ` set library_tracks
            \<or> (\<exists>track \<in> set library_tracks. similarity_ratio (name t) (label track) \<ge> 9 / 10)) \<and>
         (name t \<in> set missing \<longleftrightarrow>
            \<not> (lower (name t) \<in> (\<lambda>track. lower (label track)) ` set library_tracks
               \<or> (\<exists>track \<in> set library_tracks. similarity_ratio (name t) (label track) \<ge> 9 / 10)))"
proof -
  let ?ns = "remdups (map (\<lambda>track. lower (label track)) library_tracks)"
  have av: "is_available ?ns (name t) \<longleftrightarrow>
            lower (name t) \<in> (\<lambda>track. lower (label track)) ` set library_tracks
            \<or> (\<exists>track \<in> set library_tracks. similarity_ratio (name t) (label track) \<ge> 9 / 10)"
    by (auto simp: is_available_def any_similar_iff similarity_ratio_lower_right)
  from assms(1) have "available = filter (is_available ?ns) (map name spotify_tracks)"
    "missing = filter (\<lambda>n. \<not> is_available ?ns n) (map name spotify_tracks)"
    by (simp_all add: compare_tracks_filter)
  with assms(2) av show ?thesis by auto
qed

theorem track_classification_witness:
  "compare_tracks
     (remdups (map (\<lambda>track. lower (title_of track))
        (get_album_tracks plex_example (Some ''/library/metadata/20/children''))))
     thriller_tracks ([], [])
   = ([''Wanna Be Startin Somethin'', ''Billie Jean''], [''Thriller'']) \<and>
   similarity_ratio ''Wanna Be Startin Somethin'' ''Wanna Be Startin Something'' = 50 / 51 \<and>
   ''Thriller'' \<notin> set [''Wanna Be Startin Somethin'', ''Billie Jean''] \<and>
   ''Billie Jean'' \<in> set [''Wanna Be Startin Somethin'', ''Billie Jean'']"
proof -
  have e: "compare_tracks
     (remdups (map (\<lambda>track. lower (title_of track))
        (get_album_tracks plex_example (Some ''/library/metadata/20/children''))))
     thriller_tracks ([], [])
   = ([''Wanna Be Startin Somethin'', ''Billie Jean''], [''Thriller''])"
    by code_simp
  have s: "similarity_ratio ''Wanna Be Startin Somethin'' ''Wanna Be Startin Something'' = 50 / 51"
    by code_simp
  have t: "\<lparr>name = ''Thriller''\<rparr> \<in> set thriller_tracks"
    by (simp add: thriller_tracks_def)
  from track_classification[OF e t] e s show ?thesis by simp
qed

text \<open>
  C7 (as amended).  For all strings the similarity is a value between 0.0 and 1.0; it is
  case-insensitive: it depends on each argument only through its lower-cased form, so it
  does not change when an argument is replaced by a string with the same lower-cased form;
  and the similarity of a string with itself is 1.0.  It is not symmetric:
  \<^verbatim>\<open>SequenceMatcher.ratio\<close> depends on the order of its two sequences.
\<close>

theorem similarity_ratio_contract:
  "0 \<le> similarity_ratio a b \<and> similarity_ratio a b \<le> 1 \<and>
   similarity_ratio x x = 1 \<and>
   similarity_ratio (lower a) b = similarity_ratio a b \<and>
   similarity_ratio a (lower b) = similarity_ratio a b \<and>
   (lower a' = lower a \<and> lower b' = lower b \<longrightarrow>
      similarity_ratio a' b' = similarity_ratio a b)"
proof -
  have "0 \<le> similarity_ratio a b \<and> similarity_ratio a b \<le> 1"
    using ratio_range[of "lower a" "lower b"] by (simp add: similarity_ratio_def)
  moreover have "similarity_ratio x x = 1"
    by (rule similarity_ratio_same)
  moreover have "lower a' = lower a \<and> lower b' = lower b \<longrightarrow>
      similarity_ratio a' b' = similarity_ratio a b"
    by (simp add: similarity_ratio_def)
  ultimately show ?thesis
    by (simp add: similarity_ratio_lower_left similarity_ratio_lower_right)
qed

theorem similarity_ratio_contract_witness:
  "lower ''THRILLER'' = lower ''Thriller'' \<and> lower ''bad'' = lower ''Bad'' \<and>
   similarity_ratio ''THRILLER'' ''bad'' = similarity_ratio ''Thriller'' ''Bad'' \<and>
   similarity_ratio ''Thriller'' ''Bad'' = 0 \<and>
   similarity_ratio ''Thriller'' ''Thriller'' = 1"
proof -
  have l: "lower ''THRILLER'' = lower ''Thriller''" "lower ''bad'' = lower ''Bad''"
    by code_simp+
  have z: "similarity_ratio ''Thriller'' ''Bad'' = 0"
    by code_simp
  from similarity_ratio_contract[where a = "''Thriller''" and b = "''Bad''"
         and x = "''Thriller''" and a' = "''THRILLER''" and b' = "''bad''"] l z
  show ?thesis by simp
qed

theorem similarity_ratio_contract_counterexample:
  "similarity_ratio ''tide'' ''diet'' = 1 / 4 \<and>
   similarity_ratio ''diet'' ''tide'' = 1 / 2 \<and>
   similarity_ratio ''tide'' ''diet'' \<noteq> similarity_ratio ''diet'' ''tide''"
proof -
  have a: "similarity_ratio ''tide'' ''diet'' = 1 / 4" by code_simp
  have b: "similarity_ratio ''diet'' ''tide'' = 1 / 2" by code_simp
  from a b show ?thesis by simp
qed

text \<open>
  C8.  When Plex reports no music library (the service is not configured, the request for
  the sections fails, or no section is of type \<^verbatim>\<open>artist\<close>), \<^verbatim>\<open>check_album_in_library\<close>
  returns the not-found dict: not in the library, match type \<^verbatim>\<open>none\<close>, confidence 0.0, no
  available track and every Spotify track name missing.  The model of the method has no
  error branch: nothing in it can raise.
\<close>

theorem zero_libraries_not_found:
  "(unconfigured srv \<longrightarrow> get_music_libraries srv = []) \<and>
   (get_music_libraries srv = [] \<longrightarrow>
      plex_check_album_in_library srv album_name artist_name spotify_tracks =
        \<lparr>in_library = False, match_type = NoMatch, match_confidence = 0,
         available_tracks = [], missing_tracks = map name spotify_tracks,
         library_album_id = None, library_album_name = None\<rparr>)"
  by (simp add: get_music_libraries_def plex_check_album_in_library_def not_found_def)

theorem zero_libraries_not_found_witness:
  "unconfigured (plex_example\<lparr>token := []\<rparr>) \<and>
   get_music_libraries (plex_example\<lparr>token := []\<rparr>) = [] \<and>
   plex_check_album_in_library (plex_example\<lparr>token := []\<rparr>) ''Thriller'' ''Michael Jackson''
       thriller_tracks =
     \<lparr>in_library = False, match_type = NoMatch, match_confidence = 0,
      available_tracks = [],
      missing_tracks = [''Wanna Be Startin Somethin'', ''Billie Jean'', ''Thriller''],
      library_album_id = None, library_album_name = None\<rparr>"
  using zero_libraries_not_found
          [of "plex_example\<lparr>token := []\<rparr>" "''Thriller''" "''Michael Jackson''" thriller_tracks]
  by (simp add: unconfigured_def thriller_tracks_def)

text \<open>
  C9 (as amended).  A failed request for the artists or for the albums of a library makes
  the pass over that library yield nothing, and the loop goes on with the next library.  A
  failed request for the tracks of an album is caught as well, but inside
  \<^verbatim>\<open>get_album_tracks\<close>, which then returns no track: the matched album is still returned,
  in the library, with no available track and every Spotify track missing, and the loop
  stops there.  Whatever fails, the method returns a result whose two lists together hold
  the names of the Spotify tracks.
\<close>

theorem provider_errors_caught:
  "(section_all srv (fstr (lib_key library)) 8 = Failed \<or>
    section_all srv (fstr (lib_key library)) 9 = Failed \<longrightarrow>
      check_library srv album_name artist_name spotify_tracks library = None \<and>
      check_libraries srv album_name artist_name spotify_tracks (library # rest) =
        check_libraries srv album_name artist_name spotify_tracks rest) \<and>
   (children srv (fstr album_key) = Failed \<longrightarrow> get_album_tracks srv album_key = []) \<and>
   (search_artist_in_library srv (lib_key library) artist_name \<noteq> None \<and>
    get_artist_albums srv (lib_key library) artist_name \<noteq> [] \<and>
    match_album srv (get_artist_albums srv (lib_key library) artist_name) album_name
       (length spotify_tracks) = (Some album, exact_matches, best_ratio) \<and>
    children srv (fstr (key album)) = Failed \<longrightarrow>
      (\<exists>r. check_library srv album_name artist_name spotify_tracks library = Some r \<and>
           check_libraries srv album_name artist_name spotify_tracks (library # rest) = r \<and>
           in_library r \<and> library_album_id r = Some (ratingKey album) \<and>
           available_tracks r = [] \<and> missing_tracks r = map name spotify_tracks)) \<and>
   set (available_tracks (plex_check_album_in_library srv album_name artist_name spotify_tracks))
     \<union> set (missing_tracks (plex_check_album_in_library srv album_name artist_name spotify_tracks))
     = name ` set spotify_tracks"
proof (intro conjI impI)
  assume f: "section_all srv (fstr (lib_key library)) 8 = Failed \<or>
    section_all srv (fstr (lib_key library)) 9 = Failed"
  then show n: "check_library srv album_name artist_name spotify_tracks library = None"
    unfolding check_library_def Let_def
    by (auto simp: search_artist_in_library_def get_artist_albums_def split: option.splits)
  then show "check_libraries srv album_name artist_name spotify_tracks (library # rest) =
        check_libraries srv album_name artist_name spotify_tracks rest"
    by simp
next
  assume "children srv (fstr album_key) = Failed"
  then show "get_album_tracks srv album_key = []"
    by (simp add: get_album_tracks_def)
next
  assume a: "search_artist_in_library srv (lib_key library) artist_name \<noteq> None \<and>
    get_artist_albums srv (lib_key library) artist_name \<noteq> [] \<and>
    match_album srv (get_artist_albums srv (lib_key library) artist_name) album_name
       (length spotify_tracks) = (Some album, exact_matches, best_ratio) \<and>
    children srv (fstr (key album)) = Failed"
  then have t: "get_album_tracks srv (key album) = []"
    by (simp add: get_album_tracks_def)
  from a t obtain r where r: "check_library srv album_name artist_name spotify_tracks library = Some r"
    "in_library r" "library_album_id r = Some (ratingKey album)"
    "available_tracks r = []" "missing_tracks r = map name spotify_tracks"
    unfolding check_library_def Let_def
    by (auto simp: compare_tracks_no_library_tracks split: option.splits)
  then show "\<exists>r. check_library srv album_name artist_name spotify_tracks library = Some r \<and>
           check_libraries srv album_name artist_name spotify_tracks (library # rest) = r \<and>
           in_library r \<and> library_album_id r = Some (ratingKey album) \<and>
           available_tracks r = [] \<and> missing_tracks r = map name spotify_tracks"
    by (intro exI[of _ r]) simp
next
  from plex_check_ok[of spotify_tracks srv album_name artist_name]
  show "set (available_tracks (plex_check_album_in_library srv album_name artist_name spotify_tracks))
     \<union> set (missing_tracks (plex_check_album_in_library srv album_name artist_name spotify_tracks))
     = name ` set spotify_tracks"
    by (simp add: result_ok_def)
qed

theorem provider_errors_caught_witness:
  "check_library plex_example ''Thriller'' ''Michael Jackson'' thriller_tracks
       \<lparr>lib_key = Some ''7'', lib_title = Some ''Films''\<rparr> = None \<and>
   get_album_tracks plex_example (Some ''/library/metadata/40/children'') = [] \<and>
   (\<exists>r. check_library plex_example ''Thriller'' ''Michael Jackson'' thriller_tracks
          \<lparr>lib_key = Some ''2'', lib_title = Some ''Vinyl''\<rparr> = Some r \<and>
        in_library r \<and> library_album_id r = Some ''40'' \<and> available_tracks r = [] \<and>
        missing_tracks r = [''Wanna Be Startin Somethin'', ''Billie Jean'', ''Thriller''])"
proof -
  let ?films = "\<lparr>lib_key = Some ''7'', lib_title = Some ''Films''\<rparr>"
  let ?vinyl = "\<lparr>lib_key = Some ''2'', lib_title = Some ''Vinyl''\<rparr>"
  let ?album = "entry ''40'' ''Thriller'' ''Michael Jackson''"
  note t1 = provider_errors_caught[where srv = plex_example and library = ?films
      and album_name = "''Thriller''" and artist_name = "''Michael Jackson''"
      and spotify_tracks = thriller_tracks and rest = "[]"
      and album_key = "Some ''/library/metadata/40/children''"
      and album = ?album and exact_matches = "[?album]" and best_ratio = 0]
  note t2 = provider_errors_caught[where srv = plex_example and library = ?vinyl
      and album_name = "''Thriller''" and artist_name = "''Michael Jackson''"
      and spotify_tracks = thriller_tracks and rest = "[]"
      and album_key = "Some ''/library/metadata/40/children''"
      and album = ?album and exact_matches = "[?album]" and best_ratio = 0]
  have f: "section_all plex_example (fstr (lib_key ?films)) 8 = Failed"
    "children plex_example (fstr (Some ''/library/metadata/40/children'')) = Failed"
    "children plex_example (fstr (key ?album)) = Failed"
    by code_simp+
  have p: "search_artist_in_library plex_example (lib_key ?vinyl) ''Michael Jackson'' \<noteq> None"
    "get_artist_albums plex_example (lib_key ?vinyl) ''Michael Jackson'' \<noteq> []"
    "match_album plex_example (get_artist_albums plex_example (lib_key ?vinyl) ''Michael Jackson'')
        ''Thriller'' (length thriller_tracks) = (Some ?album, [?album], 0)"
    by code_simp+
  from t1[THEN conjunct1, rule_format, OF disjI1, OF f(1)]
  have 1: "check_library plex_example ''Thriller'' ''Michael Jackson'' thriller_tracks ?films = None"
    by simp
  from t1[THEN conjunct2, THEN conjunct1, rule_format, OF f(2)]
  have 2: "get_album_tracks plex_example (Some ''/library/metadata/40/children'') = []" .
  from t2[THEN conjunct2, THEN conjunct2, THEN conjunct1, rule_format] p f(3)
  have 3: "\<exists>r. check_library plex_example ''Thriller'' ''Michael Jackson'' thriller_tracks ?vinyl = Some r \<and>
        in_library r \<and> library_album_id r = Some ''40'' \<and> available_tracks r = [] \<and>
        missing_tracks r = [''Wanna Be Startin Somethin'', ''Billie Jean'', ''Thriller'']"
    by (auto simp: entry_def thriller_tracks_def)
  from 1 2 3 show ?thesis by blast
qed

theorem provider_errors_caught_counterexample:
  "children plex_example (fstr (key (entry ''40'' ''Thriller'' ''Michael Jackson''))) = Failed \<and>
   get_music_libraries plex_example =
     [\<lparr>lib_key = Some ''2'', lib_title = Some ''Vinyl''\<rparr>,
      \<lparr>lib_key = Some ''1'', lib_title = Some ''Music''\<rparr>] \<and>
   plex_check_album_in_library plex_example ''Thriller'' ''Michael Jackson'' thriller_tracks
     = \<lparr>in_library = True, match_type = Exact, match_confidence = 1,
        available_tracks = [],
        missing_tracks = [''Wanna Be Startin Somethin'', ''Billie Jean'', ''Thriller''],
        library_album_id = Some ''40'', library_album_name = Some ''Thriller''\<rparr> \<and>
   check_libraries plex_example ''Thriller'' ''Michael Jackson'' thriller_tracks
       [\<lparr>lib_key = Some ''1'', lib_title = Some ''Music''\<rparr>]
     = \<lparr>in_library = True, match_type = Exact, match_confidence = 1,
        available_tracks = [''Wanna Be Startin Somethin'', ''Billie Jean''],
        missing_tracks = [''Thriller''],
        library_album_id = Some ''20'', library_album_name = Some ''Thriller''\<rparr>"
  by code_simp

text \<open>
  C10 (as amended).  \<open>available_tracks\<close> and \<open>missing_tracks\<close> are lists with one entry for
  each Spotify track: a name that \<open>n\<close> tracks carry appears \<open>n\<close> times, all in the same
  list.  Names are not merged.
\<close>

theorem duplicate_names_kept:
  assumes "r = plex_check_album_in_library srv album_name artist_name spotify_tracks
           \<or> jf_check_album_in_library jsrv album_name artist_name spotify_tracks = Inr r"
  shows "count_list (available_tracks r) x + count_list (missing_tracks r) x
           = count_list (map name spotify_tracks) x \<and>
         (count_list (available_tracks r) x = 0 \<or> count_list (missing_tracks r) x = 0) \<and>
         length (available_tracks r) + length (missing_tracks r) = length spotify_tracks"
proof -
  from assms have rl: "result_lists spotify_tracks r"
    using plex_check_lists jf_check_lists by blast
  show ?thesis
    by (intro conjI) (rule result_lists_counts[OF rl])+
qed

theorem duplicate_names_kept_witness:
  "count_list (available_tracks (plex_check_album_in_library plex_example ''Bad'' ''Michael Jackson''
       [\<lparr>name = ''Bad''\<rparr>, \<lparr>name = ''Leave Me Alone''\<rparr>, \<lparr>name = ''Bad''\<rparr>])) ''Bad'' = 2 \<and>
   count_list (missing_tracks (plex_check_album_in_library plex_example ''Bad'' ''Michael Jackson''
       [\<lparr>name = ''Bad''\<rparr>, \<lparr>name = ''Leave Me Alone''\<rparr>, \<lparr>name = ''Bad''\<rparr>])) ''Bad'' = 0"
proof -
  let ?r = "plex_check_album_in_library plex_example ''Bad'' ''Michael Jackson''
       [\<lparr>name = ''Bad''\<rparr>, \<lparr>name = ''Leave Me Alone''\<rparr>, \<lparr>name = ''Bad''\<rparr>]"
  have e: "available_tracks ?r = [''Bad'', ''Bad'']" by code_simp
  from duplicate_names_kept[of ?r plex_example "''Bad''" "''Michael Jackson''" _ _ "''Bad''", OF disjI1, OF refl]
  show ?thesis by (simp add: e)
qed

theorem duplicate_names_counterexample:
  "jf_check_album_in_library jf_example ''Thriller'' ''Michael Jackson''
      [\<lparr>name = ''Billie Jean''\<rparr>, \<lparr>name = ''Billie Jean''\<rparr>]
   = Inr \<lparr>in_library = True, match_type = Exact, match_confidence = 1,
          available_tracks = [''Billie Jean'', ''Billie Jean''],
          missing_tracks = [],
          library_album_id = Some ''b2'', library_album_name = Some ''THRILLER''\<rparr> \<and>
   count_list ([''Billie Jean'', ''Billie Jean''] @ []) ''Billie Jean'' = 2"
  by code_simp

end
